theory Spec2Isabelle
  imports Complex_Main "HOL-Library.Log_Nat"
begin

section \<open>Strings and the validation patterns of \<open>SECURITY.patterns\<close>\<close>

text \<open>
  Field values are modelled as \<open>string\<close>: lists of code units below 256. The white space of
  \<open>String.prototype.trim\<close> and of the regular-expression class \<open>\s\<close> in that range is TAB, LF,
  VT, FF, CR, SPACE and NO-BREAK SPACE.
\<close>

definition is_space :: "char \<Rightarrow> bool" where
  "is_space c = ((of_char c :: nat) \<in> {9, 10, 11, 12, 13, 32, 160})"

definition is_digit :: "char \<Rightarrow> bool" where
  "is_digit c = (48 \<le> (of_char c :: nat) \<and> (of_char c :: nat) \<le> 57)"

definition is_letter :: "char \<Rightarrow> bool" where
  "is_letter c = ((65 \<le> (of_char c :: nat) \<and> (of_char c :: nat) \<le> 90)
                \<or> (97 \<le> (of_char c :: nat) \<and> (of_char c :: nat) \<le> 122))"

text \<open>\<open>value.trim()\<close>: white space is dropped at both ends.\<close>

definition trim :: "string \<Rightarrow> string" where
  "trim s = rev (dropWhile is_space (rev (dropWhile is_space s)))"

text \<open>The character class \<open>[^\s@]\<close>.\<close>

definition email_char :: "char \<Rightarrow> bool" where
  "email_char c = (\<not> is_space c \<and> c \<noteq> CHR ''@'')"

text \<open>
  \<open>email: /^[^\s@]+@[^\s@]+\.[^\s@]+$/\<close>. The three groups exclude \<open>@\<close>, so the literal
  \<open>@\<close> is the first one of the string; what follows it must split around a dot that is
  neither its first nor its last character (the groups themselves may hold dots).
\<close>

definition email_test :: "string \<Rightarrow> bool" where
  "email_test s =
     (let a = takeWhile (\<lambda>c. c \<noteq> CHR ''@'') s;
          r = dropWhile (\<lambda>c. c \<noteq> CHR ''@'') s
      in a \<noteq> [] \<and> list_all email_char a \<and> r \<noteq> [] \<and>
         list_all email_char (tl r) \<and> CHR ''.'' \<in> set (butlast (tl (tl r))))"

text \<open>\<open>phone: /^[\+]?[1-9][\d]{0,15}$/\<close>.\<close>

definition phone_test :: "string \<Rightarrow> bool" where
  "phone_test s =
     (let t = (case s of c # cs \<Rightarrow> if c = CHR ''+'' then cs else s | [] \<Rightarrow> s)
      in case t of
           [] \<Rightarrow> False
         | d # ds \<Rightarrow> is_digit d \<and> d \<noteq> CHR ''0'' \<and> list_all is_digit ds \<and> length ds \<le> 15)"

text \<open>\<open>name: /^[a-zA-Z\s'-]{2,50}$/\<close>.\<close>

definition name_char :: "char \<Rightarrow> bool" where
  "name_char c = (is_letter c \<or> is_space c \<or> c = CHR 0x27 \<or> c = CHR ''-'')"

definition name_test :: "string \<Rightarrow> bool" where
  "name_test s = (2 \<le> length s \<and> length s \<le> 50 \<and> list_all name_char s)"

text \<open>
  \<open>SECURITY.sanitizeInput\<close>: the text is assigned to \<open>textContent\<close> of a detached element
  and read back as \<open>innerHTML\<close>, which escapes \<open>&\<close>, \<open><\<close>, \<open>>\<close> and the no-break space.
\<close>

fun escape_char :: "char \<Rightarrow> string" where
  "escape_char c =
     (if c = CHR ''&'' then ''&amp;''
      else if c = CHR ''<'' then ''&lt;''
      else if c = CHR ''>'' then ''&gt;''
      else if c = CHR 0xA0 then ''&nbsp;''
      else [c])"

definition sanitizeInput :: "string \<Rightarrow> string" where
  "sanitizeInput input = concat (map escape_char input)"

section \<open>Fields, forms and the field-level error display\<close>

text \<open>
  The place of a node inside a form: the form element is \<open>[]\<close>, and the \<open>i\<close>-th child of the
  node \<open>p\<close> is \<open>p @ [i]\<close>. A node lies within the subtree of a node when that node's place is
  a prefix of its own.
\<close>

type_synonym node = "nat list"

definition lies_within :: "node \<Rightarrow> node \<Rightarrow> bool" where
  "lies_within p q = (take (length q) p = q)"

text \<open>
  An \<open>input\<close> or \<open>textarea\<close> element, with the properties the validation code reads and
  writes. \<open>fdefault\<close> is the element's default value, which \<open>form.reset()\<close> restores;
  \<open>fparent\<close> is the place of \<open>field.parentNode\<close>.
\<close>

record field =
  fname :: string
  ftype :: string
  fvalue :: string
  fdefault :: string
  frequired :: bool
  fparent :: node
  fclasses :: "string list"
  aria_invalid :: "string option"
  aria_describedby :: "string option"

text \<open>
  The \<open>div.field-error\<close> elements of a form, each with the place of its parent and its text,
  in document order. They are the elements that \<open>showFieldError\<close> has appended, each the last
  child of its parent.
\<close>

type_synonym error_div = "node \<times> string"

fun remove_first :: "('a \<Rightarrow> bool) \<Rightarrow> 'a list \<Rightarrow> 'a list" where
  "remove_first P [] = []"
| "remove_first P (x # xs) = (if P x then xs else x # remove_first P xs)"

text \<open>\<open>classList.add\<close> and \<open>classList.remove\<close> of one token.\<close>

definition class_add :: "string \<Rightarrow> string list \<Rightarrow> string list" where
  "class_add c cs = (if c \<in> set cs then cs else cs @ [c])"

definition class_remove :: "string \<Rightarrow> string list \<Rightarrow> string list" where
  "class_remove c cs = removeAll c cs"

text \<open>
  \<open>field.parentNode.querySelector('.field-error')\<close> finds the first error element, in document
  order, within the subtree of the parent; \<open>clearFieldError\<close> removes that one.
\<close>

definition clearFieldError :: "field \<Rightarrow> error_div list \<Rightarrow> field \<times> error_div list" where
  "clearFieldError fld errs =
     (fld\<lparr>fclasses := class_remove ''error'' (fclasses fld),
          aria_invalid := None, aria_describedby := None\<rparr>,
      remove_first (\<lambda>d. lies_within (fst d) (fparent fld)) errs)"

text \<open>
  \<open>after_last_child q p\<close>: an error element appended to \<open>q\<close> stands after the place of a new
  last child of \<open>p\<close>. That is so when \<open>q\<close> is a proper ancestor of \<open>p\<close>, or when the two
  places part and \<open>q\<close> takes the later branch; an element within the subtree of \<open>p\<close> stands
  before the new child.
\<close>

fun after_last_child :: "node \<Rightarrow> node \<Rightarrow> bool" where
  "after_last_child q [] = False"
| "after_last_child [] (x # p) = True"
| "after_last_child (y # q) (x # p) = (if y = x then after_last_child q p else x < y)"

text \<open>\<open>parentNode.appendChild(errorDiv)\<close>, keeping the error elements in document order.\<close>

definition append_error_div :: "error_div \<Rightarrow> error_div list \<Rightarrow> error_div list" where
  "append_error_div d errs =
     takeWhile (\<lambda>e. \<not> after_last_child (fst e) (fst d)) errs @ [d] @
     dropWhile (\<lambda>e. \<not> after_last_child (fst e) (fst d)) errs"

text \<open>The new element has no id, so \<open>errorDiv.id || 'error'\<close> is \<open>'error'\<close>.\<close>

definition showFieldError :: "field \<Rightarrow> string \<Rightarrow> error_div list \<Rightarrow> field \<times> error_div list" where
  "showFieldError fld message errs =
     (fld\<lparr>fclasses := class_add ''error'' (fclasses fld),
          aria_invalid := Some ''true'', aria_describedby := Some ''error''\<rparr>,
      append_error_div (fparent fld, sanitizeInput message) errs)"

definition validateField :: "field \<Rightarrow> error_div list \<Rightarrow> bool \<times> field \<times> error_div list" where
  "validateField fld0 errs0 =
     (let v = trim (fvalue fld0);
          fieldType = ftype fld0;
          fieldName = fname fld0;
          (fld, errs) = clearFieldError fld0 errs0
      in if frequired fld \<and> v = [] then
           (False, showFieldError fld ''This field is required'' errs)
         else if v \<noteq> [] \<and> fieldType = ''email'' \<and> \<not> email_test v then
           (False, showFieldError fld ''Please enter a valid email address'' errs)
         else if v \<noteq> [] \<and> fieldType = ''tel'' \<and> \<not> phone_test v then
           (False, showFieldError fld ''Please enter a valid phone number'' errs)
         else if v \<noteq> [] \<and> fieldType = ''text'' \<and> fieldName = ''name'' \<and> \<not> name_test v then
           (False, showFieldError fld ''Please enter a valid name (2-50 characters)'' errs)
         else (True, fld, errs))"

record button =
  btn_text :: string
  btn_disabled :: bool

text \<open>
  A form: its class list, whether \<open>form.closest('#contact')\<close> finds an element, the result of \<open>querySelectorAll('input, textarea')\<close> in document
  order, its field-error elements, and \<open>querySelector('button[type="submit"]')\<close>.
  \<open>form_entries\<close> is the entry list that the browser's \<open>new FormData(form)\<close> constructs when
  a submission starts, the names and values of the controls it would submit; it is read
  once, by the first statement of \<open>handleFormSubmission\<close>.
\<close>

record form =
  form_classes :: "string list"
  in_contact :: bool
  inputs :: "field list"
  error_divs :: "error_div list"
  submit_button :: "button option"
  form_entries :: "(string \<times> string) list"

text \<open>The \<open>forEach\<close> of \<open>validateForm\<close>, with the flag \<open>isValid\<close> threaded through.\<close>

fun validate_inputs :: "field list \<Rightarrow> error_div list \<Rightarrow> bool \<Rightarrow> bool \<times> field list \<times> error_div list" where
  "validate_inputs [] errs isValid = (isValid, [], errs)"
| "validate_inputs (fld # flds) errs isValid =
     (case validateField fld errs of
        (ok, fld', errs') \<Rightarrow>
          (case validate_inputs flds errs' (if \<not> ok then False else isValid) of
             (v, flds', errs'') \<Rightarrow> (v, fld' # flds', errs'')))"

definition validateForm :: "form \<Rightarrow> bool \<times> form" where
  "validateForm frm =
     (case validate_inputs (inputs frm) (error_divs frm) True of
        (v, flds, errs) \<Rightarrow> (v, frm\<lparr>inputs := flds, error_divs := errs\<rparr>))"

definition getFormType :: "form \<Rightarrow> string" where
  "getFormType frm =
     (if ''email-form'' \<in> set (form_classes frm) then ''early-access''
      else if in_contact frm then ''contact''
      else ''default'')"

text \<open>
  \<open>addCSRFProtection\<close>: a hidden input named \<open>_csrf\<close> is appended to the form element,
  which becomes its parent and makes it the last control of the form. The
  token of \<open>generateCSRFToken\<close> is random and is a parameter here. Assigning \<open>value\<close> on a
  hidden input sets its \<open>value\<close> attribute, which is also its default value. A hidden
  input with a name is among the controls that are submitted.
\<close>

definition addCSRFProtection :: "string \<Rightarrow> form \<Rightarrow> form" where
  "addCSRFProtection csrfToken frm =
     frm\<lparr>inputs := inputs frm @
       [\<lparr>fname = ''_csrf'', ftype = ''hidden'', fvalue = csrfToken, fdefault = csrfToken,
         frequired = False, fparent = [], fclasses = [],
         aria_invalid = None, aria_describedby = None\<rparr>],
         form_entries := form_entries frm @ [(''_csrf'', csrfToken)]\<rparr>"

definition showFormLoading :: "form \<Rightarrow> form" where
  "showFormLoading frm =
     (case submit_button frm of
        None \<Rightarrow> frm
      | Some b \<Rightarrow> frm\<lparr>submit_button := Some (b\<lparr>btn_text := ''Sending...'', btn_disabled := True\<rparr>)\<rparr>)"

definition hideFormLoading :: "form \<Rightarrow> form" where
  "hideFormLoading frm =
     (case submit_button frm of
        None \<Rightarrow> frm
      | Some b \<Rightarrow> frm\<lparr>submit_button := Some (b\<lparr>btn_text := ''Send Message'', btn_disabled := False\<rparr>)\<rparr>)"

text \<open>\<open>form.reset()\<close>: every control goes back to its default value.\<close>

definition form_reset :: "form \<Rightarrow> form" where
  "form_reset frm = frm\<lparr>inputs := map (\<lambda>fld. fld\<lparr>fvalue := fdefault fld\<rparr>) (inputs frm)\<rparr>"

section \<open>The application state: event history, messages, timers\<close>

datatype jsval = Str string | Num int

text \<open>
  An entry of \<open>eventHistory\<close>. The time stamp is the reading of the clock \<open>now\<close>, in
  milliseconds. The console line of \<open>trackEvent\<close> is not part of the state. \<open>trackEvent\<close>
  below is the call in which \<open>window.gtag\<close> is not defined or returns; a hook that throws
  is modelled where the code catches the exception, in the submission pipeline.
\<close>

record tracked_event =
  ev_name :: string
  ev_data :: "(string \<times> jsval) list"
  ev_time :: nat

datatype container = ContactSection | Body

text \<open>An element of the document that a class selector can find, with a node identity.\<close>

record element =
  el_id :: nat
  el_classes :: "string list"
  el_text :: string
  el_parent :: container

text \<open>
  Callbacks that \<open>showMessage\<close> and \<open>hideMessage\<close> hand to \<open>requestAnimationFrame\<close> and
  \<open>setTimeout\<close>, each for the message element it closes over.
\<close>

datatype timer = AnimateIn nat | AutoHide nat | Detach nat

record app =
  eventHistory :: "tracked_event list"
  elements :: "element list"
  has_contact :: bool
  next_id :: nat
  now :: nat
  timers :: "(int \<times> timer) list"
  console_submissions :: "(string \<times> (string \<times> jsval) list) list"

definition FORM_TIMEOUT :: nat where
  "FORM_TIMEOUT = 2000"

definition MESSAGE_TIMEOUT :: int where
  "MESSAGE_TIMEOUT = 5000"

definition trackEvent :: "string \<Rightarrow> (string \<times> jsval) list \<Rightarrow> app \<Rightarrow> app" where
  "trackEvent eventName data a =
     a\<lparr>eventHistory := eventHistory a @
         [\<lparr>ev_name = eventName, ev_data = data, ev_time = now a\<rparr>]\<rparr>"

text \<open>The class tokens of a \<open>className\<close> string: its maximal runs without white space.\<close>

fun split_classes :: "string \<Rightarrow> string \<Rightarrow> string list" where
  "split_classes [] cur = (if cur = [] then [] else [rev cur])"
| "split_classes (c # cs) cur =
     (if is_space c then (if cur = [] then split_classes cs [] else rev cur # split_classes cs [])
      else split_classes cs (c # cur))"

definition class_tokens :: "string \<Rightarrow> string list" where
  "class_tokens className = split_classes className []"

definition is_message :: "element \<Rightarrow> bool" where
  "is_message e = (''message'' \<in> set (el_classes e))"

definition removeExistingMessages :: "app \<Rightarrow> app" where
  "removeExistingMessages a = a\<lparr>elements := filter (\<lambda>e. \<not> is_message e) (elements a)\<rparr>"

definition getMessageContainer :: "string \<Rightarrow> app \<Rightarrow> container" where
  "getMessageContainer type a =
     (if type = ''success'' \<or> type = ''error''
      then (if has_contact a then ContactSection else Body)
      else Body)"

text \<open>
  \<open>showMessage\<close> up to its last statement: the old messages are removed, the new element is
  appended and its callbacks are scheduled.
\<close>

definition showMessage_dom :: "string \<Rightarrow> string \<Rightarrow> int \<Rightarrow> app \<Rightarrow> app" where
  "showMessage_dom message type duration a0 =
     (let a1 = removeExistingMessages a0;
          messageDiv = \<lparr>el_id = next_id a1,
                        el_classes = class_tokens (''message '' @ type @ ''-message''),
                        el_text = sanitizeInput message,
                        el_parent = getMessageContainer type a1\<rparr>
      in a1\<lparr>elements := elements a1 @ [messageDiv],
            next_id := Suc (next_id a1),
            timers := timers a1 @ [(0, AnimateIn (el_id messageDiv))] @
              (if duration > 0 then [(duration, AutoHide (el_id messageDiv))] else [])\<rparr>)"

definition showMessage :: "string \<Rightarrow> string \<Rightarrow> int \<Rightarrow> app \<Rightarrow> app" where
  "showMessage message type duration a0 =
     trackEvent ''message_display''
       [(''type'', Str type), (''message'', Str (take 50 message))]
       (showMessage_dom message type duration a0)"

text \<open>
  Running one scheduled callback. A message element that has left the document is no longer
  among \<open>elements\<close>; changing its classes then changes nothing in the document, and
  \<open>hideMessage\<close> removes it only \<open>if (messageDiv.parentNode)\<close>.
\<close>

definition map_element :: "nat \<Rightarrow> (element \<Rightarrow> element) \<Rightarrow> app \<Rightarrow> app" where
  "map_element i f a = a\<lparr>elements := map (\<lambda>e. if el_id e = i then f e else e) (elements a)\<rparr>"

definition hideMessage :: "nat \<Rightarrow> app \<Rightarrow> app" where
  "hideMessage i a =
     (let a1 = map_element i (\<lambda>e. e\<lparr>el_classes := class_remove ''show'' (el_classes e)\<rparr>) a
      in a1\<lparr>timers := timers a1 @ [(300, Detach i)]\<rparr>)"

fun run_timer :: "timer \<Rightarrow> app \<Rightarrow> app" where
  "run_timer (AnimateIn i) a =
     map_element i (\<lambda>e. e\<lparr>el_classes := class_add ''show'' (el_classes e)\<rparr>) a"
| "run_timer (AutoHide i) a = hideMessage i a"
| "run_timer (Detach i) a = a\<lparr>elements := filter (\<lambda>e. el_id e \<noteq> i) (elements a)\<rparr>"

text \<open>The \<open>k\<close>-th pending callback fires and leaves the list of pending callbacks.\<close>

definition fire :: "nat \<Rightarrow> app \<Rightarrow> app" where
  "fire k a =
     (if k < length (timers a)
      then run_timer (snd (timers a ! k)) (a\<lparr>timers := take k (timers a) @ drop (Suc k) (timers a)\<rparr>)
      else a)"

text \<open>What can happen to the message display: a call of \<open>showMessage\<close>, or a callback firing.\<close>

datatype message_action = Show string string int | Fire nat

fun message_step :: "message_action \<Rightarrow> app \<Rightarrow> app" where
  "message_step (Show message type duration) a = showMessage message type duration a"
| "message_step (Fire k) a = fire k a"

definition message_run :: "message_action list \<Rightarrow> app \<Rightarrow> app" where
  "message_run acts a = fold message_step acts a"

definition message_count :: "app \<Rightarrow> nat" where
  "message_count a = length (filter is_message (elements a))"

section \<open>The submission pipeline\<close>

text \<open>An object literal as an association list; assigning a property replaces its value.\<close>

fun obj_set :: "string \<Rightarrow> jsval \<Rightarrow> (string \<times> jsval) list \<Rightarrow> (string \<times> jsval) list" where
  "obj_set k v [] = [(k, v)]"
| "obj_set k v ((k', v') # kvs) = (if k = k' then (k, v) # kvs else (k', v') # obj_set k v kvs)"

definition prepareSubmissionData ::
  "(string \<times> string) list \<Rightarrow> string \<Rightarrow> nat \<Rightarrow> (string \<times> jsval) list" where
  "prepareSubmissionData formData formType clock =
     obj_set ''timestamp'' (Num (int clock))
       (obj_set ''formType'' (Str formType)
          (fold (\<lambda>kv data. obj_set (fst kv) (Str (snd kv)) data) formData []))"

record submit_result =
  success :: bool
  message :: string

text \<open>
  The transport: a promise, rejected with a reason (\<open>Inl\<close>) or fulfilled with a result
  (\<open>Inr\<close>), and the state once it has settled. \<open>submitForm\<close> waits for \<open>CONFIG.FORM_TIMEOUT\<close>,
  writes the console line \<open>'Form submission:'\<close> and returns its fixed result.
\<close>

type_synonym transport = "(string \<times> jsval) list \<Rightarrow> string \<Rightarrow> app \<Rightarrow> (string + submit_result) \<times> app"

definition submitForm :: transport where
  "submitForm data formType a =
     (Inr \<lparr>success = True, message = ''Form submitted successfully''\<rparr>,
      a\<lparr>now := now a + FORM_TIMEOUT,
        console_submissions := console_submissions a @ [(formType, data)]\<rparr>)"

text \<open>\<open>messages[formType] || messages.default\<close> of \<open>showFormSuccess\<close>.\<close>

definition success_message :: "string \<Rightarrow> string" where
  "success_message formType =
     (if formType = ''early-access'' then
        ''Thank you! You're now on our early access list. We'll notify you as soon as we launch.''
      else if formType = ''contact'' then ''Thank you! We'll get back to you within 24 hours.''
      else ''Form submitted successfully!'')"

definition showFormSuccess :: "string \<Rightarrow> app \<Rightarrow> app" where
  "showFormSuccess formType a = showMessage (success_message formType) ''success'' MESSAGE_TIMEOUT a"

definition showFormError :: "string \<Rightarrow> app \<Rightarrow> app" where
  "showFormError msg a = showMessage msg ''error'' MESSAGE_TIMEOUT a"

text \<open>
  The analytics hook \<open>window.gtag\<close>, as \<open>trackEvent\<close> calls it with the event's name and
  data before it stores the event: \<open>None\<close> when the hook is not defined or returns, \<open>Some m\<close>
  when it throws an error with message \<open>m\<close>.
\<close>

type_synonym gtag_hook = "string \<Rightarrow> (string \<times> jsval) list \<Rightarrow> string option"

definition no_gtag :: gtag_hook where
  "no_gtag eventName data = None"

text \<open>
  A call that may throw returns the message of the exception, if any, and the state it
  leaves. When the hook throws, \<open>trackEvent\<close> has stored nothing; the statements of
  \<open>showMessage\<close> before its \<open>trackEvent\<close> have run.
\<close>

definition trackEvent_try :: "gtag_hook \<Rightarrow> string \<Rightarrow> (string \<times> jsval) list \<Rightarrow> app \<Rightarrow> string option \<times> app" where
  "trackEvent_try gtag eventName data a =
     (case gtag eventName data of
        Some m \<Rightarrow> (Some m, a)
      | None \<Rightarrow> (None, trackEvent eventName data a))"

definition showMessage_try :: "gtag_hook \<Rightarrow> string \<Rightarrow> string \<Rightarrow> int \<Rightarrow> app \<Rightarrow> string option \<times> app" where
  "showMessage_try gtag msg type duration a0 =
     trackEvent_try gtag ''message_display''
       [(''type'', Str type), (''message'', Str (take 50 msg))]
       (showMessage_dom msg type duration a0)"

text \<open>
  The \<open>catch\<close> block with the \<open>finally\<close> block after it: \<open>showFormError\<close>, then the
  \<open>form_submission_error\<close> event, then \<open>hideFormLoading\<close>. An exception thrown inside the
  \<open>catch\<close> block ends it there; \<open>finally\<close> still runs.
\<close>

definition catch_block :: "gtag_hook \<Rightarrow> string \<Rightarrow> string \<Rightarrow> form \<Rightarrow> app \<Rightarrow> form \<times> app" where
  "catch_block gtag formType errorMessage frm a =
     (case showMessage_try gtag errorMessage ''error'' MESSAGE_TIMEOUT a of
        (Some m, a1) \<Rightarrow> (hideFormLoading frm, a1)
      | (None, a1) \<Rightarrow>
          (hideFormLoading frm,
           snd (trackEvent_try gtag ''form_submission_error''
                  [(''form_type'', Str formType), (''error'', Str errorMessage)] a1)))"

text \<open>
  \<open>handleFormSubmission\<close>, given the analytics hook and the transport. The early \<open>return\<close>
  sits inside the \<open>try\<close>, so \<open>finally\<close> runs \<open>hideFormLoading\<close> on every path. The \<open>catch\<close>
  block receives a rejection of the transport and any exception thrown by a statement of
  the \<open>try\<close> block; of those statements, the two that reach \<open>trackEvent\<close> can throw here.
\<close>

definition handleFormSubmission_env :: "gtag_hook \<Rightarrow> transport \<Rightarrow> form \<Rightarrow> app \<Rightarrow> form \<times> app" where
  "handleFormSubmission_env gtag send frm0 a0 =
     (let formData = form_entries frm0;
          formType = getFormType frm0
      in case validateForm frm0 of
           (valid, frm1) \<Rightarrow>
             if \<not> valid then (hideFormLoading frm1, a0)
             else
               (let frm2 = showFormLoading frm1;
                    submissionData = prepareSubmissionData formData formType (now a0)
                in case send submissionData formType a0 of
                     (Inl reason, a1) \<Rightarrow> catch_block gtag formType reason frm2 a1
                   | (Inr res, a1) \<Rightarrow>
                       (case showMessage_try gtag (success_message formType) ''success''
                               MESSAGE_TIMEOUT a1 of
                          (Some m, a2) \<Rightarrow> catch_block gtag formType m frm2 a2
                        | (None, a2) \<Rightarrow>
                            (case trackEvent_try gtag ''form_submission_success''
                                    [(''form_type'', Str formType)] a2 of
                               (Some m, a3) \<Rightarrow> catch_block gtag formType m frm2 a3
                             | (None, a3) \<Rightarrow> (hideFormLoading (form_reset frm2), a3)))))"

text \<open>The pipeline on a page without a throwing hook, over any transport and over \<open>submitForm\<close>.\<close>

definition handleFormSubmission_with :: "transport \<Rightarrow> form \<Rightarrow> app \<Rightarrow> form \<times> app" where
  "handleFormSubmission_with send frm a = handleFormSubmission_env no_gtag send frm a"

definition handleFormSubmission :: "form \<Rightarrow> app \<Rightarrow> form \<times> app" where
  "handleFormSubmission frm a = handleFormSubmission_with submitForm frm a"

section \<open>Scroll depth\<close>

text \<open>
  The values \<open>scrollPercent\<close> and \<open>maxScroll\<close> can take: an integer, or what the division
  yields when the page has no scrollable height.
\<close>

datatype jsnum = NaN | NegInfinity | Finite int | Infinity

fun js_gt :: "jsnum \<Rightarrow> jsnum \<Rightarrow> bool" where
  "js_gt NaN _ = False"
| "js_gt _ NaN = False"
| "js_gt (Finite x) (Finite y) = (x > y)"
| "js_gt Infinity Infinity = False"
| "js_gt Infinity _ = True"
| "js_gt NegInfinity _ = False"
| "js_gt (Finite x) NegInfinity = True"
| "js_gt (Finite x) Infinity = False"

text \<open>\<open>maxScroll % 25 === 0\<close>; the remainder of an infinity is \<open>NaN\<close>.\<close>

fun at_quarter :: "jsnum \<Rightarrow> bool" where
  "at_quarter (Finite x) = (x mod 25 = 0)"
| "at_quarter _ = False"

fun depth_value :: "jsnum \<Rightarrow> jsval" where
  "depth_value (Finite x) = Num x"
| "depth_value NaN = Str ''NaN''"
| "depth_value NegInfinity = Str ''-Infinity''"
| "depth_value Infinity = Str ''Infinity''"

text \<open>
  Numbers are IEEE 754 doubles. A finite double is taken as the rational it denotes; the
  result of a division or a multiplication is the exact result rounded to the nearest
  double, a tie going to the even significand. \<open>binary_exponent x\<close> is the \<open>e\<close> with
  \<open>2 ^ e \<le> x < 2 ^ (e + 1)\<close>, for positive \<open>x\<close>; the significand has 53 bits, and below
  \<open>2 ^ - 1022\<close> the doubles keep the spacing \<open>2 ^ - 1074\<close>.
\<close>

definition pow2 :: "int \<Rightarrow> rat" where
  "pow2 k = (if 0 \<le> k then 2 ^ nat k else 1 / 2 ^ nat (- k))"

definition binary_exponent :: "rat \<Rightarrow> int" where
  "binary_exponent x =
     (case quotient_of x of
        (n, d) \<Rightarrow> (let k = bitlen n - bitlen d in if pow2 k \<le> x then k else k - 1))"

definition round_half_even :: "rat \<Rightarrow> int" where
  "round_half_even x =
     (let f = \<lfloor>x\<rfloor>; r = x - of_int f
      in if r < 1 / 2 then f else if 1 / 2 < r then f + 1 else if even f then f else f + 1)"

definition fl :: "rat \<Rightarrow> rat" where
  "fl x =
     (if x = 0 then 0
      else (let e = max (binary_exponent \<bar>x\<bar>) (- 1022);
                u = pow2 (e - 52)
            in sgn x * of_int (round_half_even (\<bar>x\<bar> / u)) * u))"

text \<open>
  The window: \<open>window.scrollY\<close>, a finite double, and the integers
  \<open>document.documentElement.scrollHeight\<close> and \<open>window.innerHeight\<close>, whose difference is exact.
\<close>

record viewport =
  scrollY :: rat
  scrollHeight :: int
  innerHeight :: int

text \<open>
  \<open>Math.round((window.scrollY / (document.documentElement.scrollHeight - window.innerHeight)) * 100)\<close>:
  the quotient is rounded to a double, the product is rounded to a double (to an infinity
  when it reaches \<open>2 ^ 1024\<close>), and \<open>Math.round\<close> takes the nearest integer, a half going up. A zero
  divisor gives \<open>NaN\<close> or an infinity.
\<close>

definition scrollPercent :: "viewport \<Rightarrow> jsnum" where
  "scrollPercent w =
     (let d = of_int (scrollHeight w - innerHeight w)
      in if d = 0 then
           (if scrollY w = 0 then NaN else if scrollY w > 0 then Infinity else NegInfinity)
         else (let r = fl (fl (scrollY w / d) * 100)
               in if r \<noteq> 0 \<and> 1024 \<le> binary_exponent \<bar>r\<bar> then
                    (if 0 < r then Infinity else NegInfinity)
                  else Finite \<lfloor>r + 1 / 2\<rfloor>))"

text \<open>The body of the scroll listener, on the rounded percentage; \<open>maxScroll\<close> is its closure variable.\<close>

definition scroll_listener :: "jsnum \<Rightarrow> jsnum \<times> app \<Rightarrow> jsnum \<times> app" where
  "scroll_listener percent st =
     (case st of (maxScroll, a) \<Rightarrow>
        if js_gt percent maxScroll then
          (percent,
           if at_quarter percent then trackEvent ''scroll_depth'' [(''depth'', depth_value percent)] a
           else a)
        else (maxScroll, a))"

text \<open>\<open>trackScrollDepth\<close> sets \<open>maxScroll = 0\<close>; then one listener call per scroll event.\<close>

definition trackScrollDepth :: "jsnum list \<Rightarrow> app \<Rightarrow> jsnum \<times> app" where
  "trackScrollDepth percents a = fold scroll_listener percents (Finite 0, a)"

definition scroll_depths :: "app \<Rightarrow> jsval list" where
  "scroll_depths a =
     concat (map (\<lambda>e. map snd (ev_data e)) (filter (\<lambda>e. ev_name e = ''scroll_depth'') (eventHistory a)))"

section \<open>Intersection observers\<close>

record io_entry =
  target :: nat
  isIntersecting :: bool

record page_section =
  sec_id :: string
  sec_classes :: "string list"

fun className :: "string list \<Rightarrow> string" where
  "className [] = []"
| "className [c] = c"
| "className (c # cs) = c @ '' '' @ className cs"

text \<open>\<open>entry.target.classList.add('visible', 'loaded')\<close>.\<close>

definition mark_visible :: "page_section \<Rightarrow> page_section" where
  "mark_visible sec =
     sec\<lparr>sec_classes := class_add ''loaded'' (class_add ''visible'' (sec_classes sec))\<rparr>"

text \<open>\<open>entry.target.id || entry.target.className\<close>.\<close>

definition sectionId_of :: "page_section \<Rightarrow> string" where
  "sectionId_of sec = (if sec_id sec \<noteq> [] then sec_id sec else className (sec_classes sec))"

text \<open>
  The callback of \<open>sectionObserver\<close> on one entry. The observer is never told to unobserve a
  section. \<open>triggerBusinessAnimations\<close> only sets styles of service cards and is left out.
\<close>

definition section_entry :: "io_entry \<Rightarrow> (nat \<Rightarrow> page_section) \<times> app \<Rightarrow> (nat \<Rightarrow> page_section) \<times> app" where
  "section_entry entry st =
     (case st of (secs, a) \<Rightarrow>
        if isIntersecting entry then
          (let sec = mark_visible (secs (target entry));
               sectionId = sectionId_of sec
           in (secs(target entry := sec), trackEvent ''section_view'' [(''section'', Str sectionId)] a))
        else (secs, a))"

definition section_callback :: "io_entry list \<Rightarrow> (nat \<Rightarrow> page_section) \<times> app \<Rightarrow> (nat \<Rightarrow> page_section) \<times> app" where
  "section_callback entries st = fold section_entry entries st"

definition section_views :: "string \<Rightarrow> app \<Rightarrow> nat" where
  "section_views sectionId a =
     length (filter (\<lambda>e. ev_name e = ''section_view'' \<and> ev_data e = [(''section'', Str sectionId)])
               (eventHistory a))"

text \<open>
  An observer is the list of the targets it observes. The browser queues entries only for
  observed targets, and hands the queued entries to the callback in one call.
\<close>

type_synonym observer = "nat list"

definition unobserve :: "nat \<Rightarrow> observer \<Rightarrow> observer" where
  "unobserve t obs = removeAll t obs"

definition deliver :: "observer \<Rightarrow> io_entry list \<Rightarrow> io_entry list" where
  "deliver obs queued = filter (\<lambda>e. target e \<in> set obs) queued"

definition getServiceType :: "string list \<Rightarrow> string" where
  "getServiceType classes =
     (if ''pet-insurance'' \<in> set classes then ''pet-insurance''
      else if ''healthcare'' \<in> set classes then ''healthcare''
      else if ''business-automation'' \<in> set classes then ''business-automation''
      else ''unknown'')"

text \<open>\<open>trackServiceInterest\<close>: one observer for each classes; \<open>classes\<close> is the class list of the classes.\<close>

definition service_entry :: "string list \<Rightarrow> io_entry \<Rightarrow> observer \<times> app \<Rightarrow> observer \<times> app" where
  "service_entry classes entry st =
     (case st of (obs, a) \<Rightarrow>
        if isIntersecting entry then
          (unobserve (target entry) obs,
           trackEvent ''service_interest''
             [(''service'', Str (getServiceType classes)), (''action'', Str ''view'')] a)
        else (obs, a))"

definition service_notify :: "string list \<Rightarrow> io_entry list \<Rightarrow> observer \<times> app \<Rightarrow> observer \<times> app" where
  "service_notify classes queued st = fold (service_entry classes) (deliver (fst st) queued) st"

text \<open>\<open>trackBusinessGoals\<close>: one observer for each of the sections that exist.\<close>

definition goal_entry :: "string \<Rightarrow> io_entry \<Rightarrow> observer \<times> app \<Rightarrow> observer \<times> app" where
  "goal_entry sectionId entry st =
     (case st of (obs, a) \<Rightarrow>
        if isIntersecting entry then
          (unobserve (target entry) obs,
           trackEvent ''business_goal'' [(''goal'', Str (''view_'' @ sectionId))] a)
        else (obs, a))"

definition goal_notify :: "string \<Rightarrow> io_entry list \<Rightarrow> observer \<times> app \<Rightarrow> observer \<times> app" where
  "goal_notify sectionId queued st = fold (goal_entry sectionId) (deliver (fst st) queued) st"

text \<open>
  A one-shot observer set up on the node \<open>node\<close>, run over the successive batches of queued
  entries.
\<close>

definition trackServiceInterest :: "string list \<Rightarrow> nat \<Rightarrow> io_entry list list \<Rightarrow> app \<Rightarrow> observer \<times> app" where
  "trackServiceInterest classes node batches a = fold (service_notify classes) batches ([node], a)"

definition trackBusinessGoals :: "string \<Rightarrow> nat \<Rightarrow> io_entry list list \<Rightarrow> app \<Rightarrow> observer \<times> app" where
  "trackBusinessGoals sectionId node batches a = fold (goal_notify sectionId) batches ([node], a)"

text \<open>An element crosses into view in a batch when the batch holds an intersecting entry for it.\<close>

definition crossings :: "nat \<Rightarrow> io_entry list list \<Rightarrow> nat" where
  "crossings node batches =
     length (filter (\<lambda>e. target e = node \<and> isIntersecting e) (concat batches))"

text \<open>Each batch holds at most one entry for each target.\<close>

definition one_entry_per_target :: "io_entry list list \<Rightarrow> bool" where
  "one_entry_per_target batches = list_all (\<lambda>b. distinct (map target b)) batches"

section \<open>A sample page\<close>

text \<open>
  An application with an empty event history and no message on display; a page whose
  sections are all the \<open>services\<close> section; a window 800 pixels high on a document 1800
  pixels high, scrolled to \<open>y\<close>; and the early-access form: one required email input,
  a direct child of the form element, and a submit
  button labelled \<open>Join Waitlist\<close>.
\<close>

definition empty_app :: app where
  "empty_app = \<lparr>eventHistory = [], elements = [], has_contact = True, next_id = 0, now = 0,
                 timers = [], console_submissions = []\<rparr>"

definition services_section :: "nat \<Rightarrow> page_section" where
  "services_section n = \<lparr>sec_id = ''services'', sec_classes = [''services'', ''loading'']\<rparr>"

definition viewport_at :: "rat \<Rightarrow> viewport" where
  "viewport_at y = \<lparr>scrollY = y, scrollHeight = 1800, innerHeight = 800\<rparr>"

text \<open>A window on a document that has \<open>h\<close> pixels to scroll, scrolled to \<open>y\<close>.\<close>

definition scrolled :: "rat \<Rightarrow> int \<Rightarrow> viewport" where
  "scrolled y h = \<lparr>scrollY = y, scrollHeight = h + 800, innerHeight = 800\<rparr>"

text \<open>A hook that throws on the event named \<open>name\<close> and returns on every other event.\<close>

definition gtag_throwing_on :: "string \<Rightarrow> gtag_hook" where
  "gtag_throwing_on name eventName data =
     (if eventName = name then Some ''gtag failed'' else None)"

definition email_field :: "string \<Rightarrow> bool \<Rightarrow> field" where
  "email_field v req =
     \<lparr>fname = ''email'', ftype = ''email'', fvalue = v, fdefault = [], frequired = req,
      fparent = [], fclasses = [''email-input''], aria_invalid = None, aria_describedby = None\<rparr>"

definition signup_form :: "string \<Rightarrow> form" where
  "signup_form v =
     \<lparr>form_classes = [''email-form''], in_contact = False,
      inputs = [email_field v True], error_divs = [],
      submit_button = Some \<lparr>btn_text = ''Join Waitlist'', btn_disabled = False\<rparr>,
      form_entries = [(''email'', v)]\<rparr>"

section \<open>Properties of the patterns\<close>

lemma email_samples:
  "email_test ''a@b.co''" "\<not> email_test ''abc''" "\<not> email_test ''a@b.''"
  "\<not> email_test ''a@.co''" "\<not> email_test ''a@b@c.d''" "email_test ''a@b.c.d''"
  by (simp_all add: email_test_def email_char_def is_space_def)

lemma phone_samples:
  "phone_test ''+15551234''" "\<not> phone_test ''0123''" "\<not> phone_test ''''" "\<not> phone_test ''+''"
  "\<not> phone_test ''12345678901234567''" "phone_test ''1234567890123456''"
  by (simp_all add: phone_test_def is_digit_def)

lemma name_samples:
  "name_test ''Al''" "\<not> name_test ''A''" "name_test ''O'Neil-Smith''" "\<not> name_test ''R2D2''"
  by (simp_all add: name_test_def name_char_def is_letter_def is_space_def)

lemma trim_samples:
  "trim ''  a b  '' = ''a b''" "trim ''   '' = ''''" "trim '''' = ''''"
  by (simp_all add: trim_def is_space_def)

text \<open>
  The two tests against the regular expressions read as languages: an email address is
  \<open>a@b.c\<close> with three non-empty groups of \<open>[^\s@]\<close>; a phone number is an optional \<open>+\<close>, a
  digit from 1 to 9 and at most 15 further digits.
\<close>

lemma dot_email_char: "email_char CHR ''.''"
  by (simp add: email_char_def is_space_def)

lemma email_test_complete:
  assumes "a \<noteq> []" "b \<noteq> []" "c \<noteq> []"
    and "list_all email_char a" "list_all email_char b" "list_all email_char c"
  shows "email_test (a @ ''@'' @ b @ ''.'' @ c)"
proof -
  have na: "\<forall>x\<in>set a. x \<noteq> CHR ''@''"
    using assms(4) by (auto simp add: list_all_iff email_char_def)
  have tw: "takeWhile (\<lambda>c. c \<noteq> CHR ''@'') (a @ CHR ''@'' # b @ CHR ''.'' # c) = a"
    using na by (simp add: takeWhile_append2)
  have dw: "dropWhile (\<lambda>c. c \<noteq> CHR ''@'') (a @ CHR ''@'' # b @ CHR ''.'' # c) = CHR ''@'' # b @ CHR ''.'' # c"
    using na by (simp add: dropWhile_append2)
  obtain x u where b: "b = x # u" using assms(2) by (cases b) auto
  have bl: "butlast (u @ CHR ''.'' # c) = u @ CHR ''.'' # butlast c"
    using assms(3) by (simp add: butlast_append)
  show ?thesis
    using assms tw dw bl b by (simp add: email_test_def Let_def dot_email_char)
qed

lemma email_test_sound:
  assumes "email_test s"
  shows "\<exists>a b c. s = a @ ''@'' @ b @ ''.'' @ c \<and> a \<noteq> [] \<and> b \<noteq> [] \<and> c \<noteq> [] \<and>
           list_all email_char a \<and> list_all email_char b \<and> list_all email_char c"
proof -
  let ?a = "takeWhile (\<lambda>c. c \<noteq> CHR ''@'') s"
  let ?r = "dropWhile (\<lambda>c. c \<noteq> CHR ''@'') s"
  from assms have a: "?a \<noteq> []" "list_all email_char ?a" and r: "?r \<noteq> []"
    and d: "list_all email_char (tl ?r)" and dot: "CHR ''.'' \<in> set (butlast (tl (tl ?r)))"
    by (simp_all add: email_test_def Let_def)
  have "hd ?r = CHR ''@''" using r hd_dropWhile [of "\<lambda>c. c \<noteq> CHR ''@''" s] by auto
  then have rr: "?r = CHR ''@'' # tl ?r" using r by (cases ?r) auto
  have s: "s = ?a @ CHR ''@'' # tl ?r"
    using takeWhile_dropWhile_id [of "\<lambda>c. c \<noteq> CHR ''@''" s] rr by metis
  obtain x d' where dd: "tl ?r = x # d'"
    using dot by (cases "tl ?r") auto
  have "d' \<noteq> []" using dot dd by auto
  then obtain d'' z where d': "d' = d'' @ [z]" by (metis rev_exhaust)
  have "CHR ''.'' \<in> set d''" using dot dd d' by simp
  then obtain u v where d'': "d'' = u @ CHR ''.'' # v" by (meson split_list)
  have tlr: "tl ?r = (x # u) @ CHR ''.'' # (v @ [z])"
    using dd d' d'' by simp
  have "list_all email_char (x # u)" "list_all email_char (v @ [z])"
    using d unfolding tlr by simp_all
  moreover have "s = ?a @ ''@'' @ (x # u) @ ''.'' @ (v @ [z])"
    using s tlr by simp
  ultimately show ?thesis using a by blast
qed

lemma email_test_iff:
  "email_test s \<longleftrightarrow>
     (\<exists>a b c. s = a @ ''@'' @ b @ ''.'' @ c \<and> a \<noteq> [] \<and> b \<noteq> [] \<and> c \<noteq> [] \<and>
        list_all email_char a \<and> list_all email_char b \<and> list_all email_char c)"
  using email_test_sound email_test_complete by blast

lemma phone_test_iff:
  "phone_test s \<longleftrightarrow>
     (\<exists>sign d ds. s = sign @ d # ds \<and> (sign = [] \<or> sign = ''+'') \<and>
        is_digit d \<and> d \<noteq> CHR ''0'' \<and> list_all is_digit ds \<and> length ds \<le> 15)"
proof
  assume "phone_test s"
  then show "\<exists>sign d ds. s = sign @ d # ds \<and> (sign = [] \<or> sign = ''+'') \<and>
        is_digit d \<and> d \<noteq> CHR ''0'' \<and> list_all is_digit ds \<and> length ds \<le> 15"
  proof -
    from \<open>phone_test s\<close> consider
      (plus) d ds where "s = CHR ''+'' # d # ds" "is_digit d" "d \<noteq> CHR ''0''"
        "list_all is_digit ds" "length ds \<le> 15"
    | (plain) d ds where "s = d # ds" "is_digit d" "d \<noteq> CHR ''0''"
        "list_all is_digit ds" "length ds \<le> 15"
      by (cases s) (auto simp add: phone_test_def Let_def split: list.splits if_splits)
    then show ?thesis
    proof cases
      case plus
      then show ?thesis
        by (intro exI [of _ "''+''"] exI [of _ d] exI [of _ ds]) simp
    next
      case plain
      then show ?thesis
        by (intro exI [of _ "[]"] exI [of _ d] exI [of _ ds]) simp
    qed
  qed
next
  assume "\<exists>sign d ds. s = sign @ d # ds \<and> (sign = [] \<or> sign = ''+'') \<and>
        is_digit d \<and> d \<noteq> CHR ''0'' \<and> list_all is_digit ds \<and> length ds \<le> 15"
  then obtain sign d ds where s: "s = sign @ d # ds" "sign = [] \<or> sign = ''+''"
    "is_digit d" "d \<noteq> CHR ''0''" "list_all is_digit ds" "length ds \<le> 15" by blast
  have "d \<noteq> CHR ''+''" using s(3) by (auto simp add: is_digit_def)
  then show "phone_test s"
    using s by (auto simp add: phone_test_def Let_def)
qed

section \<open>Field and form validation\<close>

lemma validateField_valid_indep: "fst (validateField fld e1) = fst (validateField fld e2)"
  by (simp add: validateField_def clearFieldError_def Let_def split: prod.splits)

lemma validateField_field_indep: "fst (snd (validateField fld e1)) = fst (snd (validateField fld e2))"
  by (simp add: validateField_def clearFieldError_def showFieldError_def Let_def split: prod.splits)

lemma validate_inputs_valid:
  "fst (validate_inputs flds errs v) = (v \<and> list_all (\<lambda>fld. fst (validateField fld [])) flds)"
proof (induction flds arbitrary: errs v)
  case Nil
  then show ?case by simp
next
  case (Cons fld flds)
  obtain ok fld' errs' where vf: "validateField fld errs = (ok, fld', errs')"
    by (cases "validateField fld errs") auto
  have ok: "ok = fst (validateField fld [])"
    using vf validateField_valid_indep [of fld errs "[]"] by simp
  show ?case
    using Cons.IH [of errs' "if \<not> ok then False else v"] vf ok
    by (auto split: prod.splits)
qed

lemma validate_inputs_fields:
  "fst (snd (validate_inputs flds errs v)) = map (\<lambda>fld. fst (snd (validateField fld []))) flds"
proof (induction flds arbitrary: errs v)
  case Nil
  then show ?case by simp
next
  case (Cons fld flds)
  obtain ok fld' errs' where vf: "validateField fld errs = (ok, fld', errs')"
    by (cases "validateField fld errs") auto
  have f: "fld' = fst (snd (validateField fld []))"
    using vf validateField_field_indep [of fld errs "[]"] by simp
  show ?case
    using Cons.IH [of errs' "if \<not> ok then False else v"] vf f
    by (auto split: prod.splits)
qed

lemma validateForm_conjunction:
  "fst (validateForm frm) = list_all (\<lambda>fld. fst (validateField fld [])) (inputs frm)"
  using validate_inputs_valid [of "inputs frm" "error_divs frm" True]
  by (auto simp add: validateForm_def split: prod.splits)

lemma validateForm_checks_every_field:
  "inputs (snd (validateForm frm)) = map (\<lambda>fld. fst (snd (validateField fld []))) (inputs frm)"
  using validate_inputs_fields [of "inputs frm" "error_divs frm" True]
  by (auto simp add: validateForm_def split: prod.splits)

lemma validateField_values:
  "fvalue (fst (snd (validateField fld errs))) = fvalue fld"
  "fdefault (fst (snd (validateField fld errs))) = fdefault fld"
  by (simp_all add: validateField_def clearFieldError_def showFieldError_def Let_def split: prod.splits)

lemma validateField_marks_invalid:
  "\<not> fst (validateField fld errs) \<Longrightarrow>
     ''error'' \<in> set (fclasses (fst (snd (validateField fld errs)))) \<and>
     aria_invalid (fst (snd (validateField fld errs))) = Some ''true''"
  by (auto simp add: validateField_def clearFieldError_def showFieldError_def class_add_def Let_def split: prod.splits if_splits)

lemmas field_eval = validateField_def clearFieldError_def showFieldError_def lies_within_def
  append_error_div_def class_add_def
  class_remove_def sanitizeInput_def trim_def is_space_def email_test_def email_char_def
  phone_test_def name_test_def name_char_def is_digit_def is_letter_def Let_def

text \<open>
  C6. \<open>validateField\<close> checks required-ness first: a required field whose trimmed value is
  empty is invalid and gets the message \<open>This field is required\<close>; a field that is not
  required and whose trimmed value is empty (an empty value in particular) is valid; and
  on a non-empty trimmed value, and only there, the pattern of the field's kind decides:
  email for type \<open>email\<close>, phone for type \<open>tel\<close>, name for a \<open>text\<close> input named \<open>name\<close>, each
  with its own message on mismatch, and valid otherwise. In each case the previous error
  display of the field is cleared first.
\<close>

theorem validateField_required_first:
  "(frequired fld \<and> trim (fvalue fld) = [] \<longrightarrow>
      validateField fld errs =
        (False, showFieldError (fst (clearFieldError fld errs)) ''This field is required''
                  (snd (clearFieldError fld errs)))) \<and>
   (\<not> frequired fld \<and> trim (fvalue fld) = [] \<longrightarrow>
      validateField fld errs = (True, clearFieldError fld errs)) \<and>
   (trim (fvalue fld) \<noteq> [] \<longrightarrow>
      validateField fld errs =
        (if ftype fld = ''email'' \<and> \<not> email_test (trim (fvalue fld)) then
           (False, showFieldError (fst (clearFieldError fld errs))
                     ''Please enter a valid email address'' (snd (clearFieldError fld errs)))
         else if ftype fld = ''tel'' \<and> \<not> phone_test (trim (fvalue fld)) then
           (False, showFieldError (fst (clearFieldError fld errs))
                     ''Please enter a valid phone number'' (snd (clearFieldError fld errs)))
         else if ftype fld = ''text'' \<and> fname fld = ''name'' \<and> \<not> name_test (trim (fvalue fld)) then
           (False, showFieldError (fst (clearFieldError fld errs))
                     ''Please enter a valid name (2-50 characters)'' (snd (clearFieldError fld errs)))
         else (True, clearFieldError fld errs)))"
  by (simp add: validateField_def clearFieldError_def Let_def)

theorem validateField_required_first_witness:
  "validateField (email_field ''  '' True) [] =
     (False, (email_field ''  '' True)\<lparr>fclasses := [''email-input'', ''error''],
                aria_invalid := Some ''true'', aria_describedby := Some ''error''\<rparr>,
      [([], ''This field is required'')]) \<and>
   validateField (email_field '''' False) [] = (True, email_field '''' False, []) \<and>
   validateField (email_field ''abc'' True) [] =
     (False, (email_field ''abc'' True)\<lparr>fclasses := [''email-input'', ''error''],
                aria_invalid := Some ''true'', aria_describedby := Some ''error''\<rparr>,
      [([], ''Please enter a valid email address'')]) \<and>
   validateField (email_field ''a@b.co'' True) [] = (True, email_field ''a@b.co'' True, [])"
  using validateField_required_first [of "email_field ''  '' True" "[]"]
        validateField_required_first [of "email_field '''' False" "[]"]
        validateField_required_first [of "email_field ''abc'' True" "[]"]
        validateField_required_first [of "email_field ''a@b.co'' True" "[]"]
  by (simp add: email_field_def clearFieldError_def showFieldError_def append_error_div_def
      class_add_def class_remove_def sanitizeInput_def trim_def is_space_def email_test_def
      email_char_def)

text \<open>
  C7. \<open>validateForm\<close> returns the conjunction of the fields' validations and validates every
  field (\<open>validateForm_conjunction\<close>, \<open>validateForm_checks_every_field\<close>), and every invalid
  field is marked (\<open>validateField_marks_invalid\<close>). But the error message of an invalid field
  does not stay on display when the parent of a field validated later holds it in its
  subtree: that field's \<open>clearFieldError\<close> removes the first \<open>.field-error\<close> under its parent.
  On the early-access form with the hidden \<open>_csrf\<close> input appended to it, an invalid email
  address leaves no error message at all.
\<close>

theorem validateForm_loses_message:
  "\<not> fst (validateField (email_field ''abc'' True) []) \<and>
   validateForm (addCSRFProtection ''tok'' (signup_form ''abc'')) =
     (False,
      (addCSRFProtection ''tok'' (signup_form ''abc''))
        \<lparr>inputs := [(email_field ''abc'' True)\<lparr>fclasses := [''email-input'', ''error''],
                      aria_invalid := Some ''true'', aria_describedby := Some ''error''\<rparr>,
                    \<lparr>fname = ''_csrf'', ftype = ''hidden'', fvalue = ''tok'', fdefault = ''tok'',
                      frequired = False, fparent = [], fclasses = [],
                      aria_invalid = None, aria_describedby = None\<rparr>],
          error_divs := []\<rparr>)"
  by (simp add: validateForm_def addCSRFProtection_def signup_form_def email_field_def field_eval)

text \<open>
  The same happens when the email input sits in a wrapper of its own (place \<open>[0]\<close>): the
  selector run on the form element, the parent of \<open>_csrf\<close>, reaches into the wrapper.
\<close>

lemma validateForm_loses_nested_message:
  "error_divs (snd (validateForm (addCSRFProtection ''tok''
      ((signup_form ''abc'')\<lparr>inputs := [(email_field ''abc'' True)\<lparr>fparent := [0]\<rparr>]\<rparr>)))) = [] \<and>
   snd (snd (validateField ((email_field ''abc'' True)\<lparr>fparent := [0]\<rparr>) [])) =
     [([0], ''Please enter a valid email address'')]"
  by (simp add: validateForm_def addCSRFProtection_def signup_form_def email_field_def field_eval)

text \<open>
  An error element is placed in document order: one appended inside a wrapper stands before
  one appended earlier to the form element, and after one in an earlier wrapper.
\<close>

lemma append_error_div_order:
  "append_error_div ([1], ''b'') [([0], ''a''), ([], ''z'')] = [([0], ''a''), ([1], ''b''), ([], ''z'')]"
  "append_error_div ([0], ''c'') [([0], ''a''), ([1], ''b'')] = [([0], ''a''), ([0], ''c''), ([1], ''b'')]"
  "append_error_div ([], ''y'') [([0, 2], ''a''), ([1], ''b'')] = [([0, 2], ''a''), ([1], ''b''), ([], ''y'')]"
  by (simp_all add: append_error_div_def)

section \<open>The submission pipeline: properties\<close>

text \<open>Without a throwing hook the \<open>catch\<close> block is entered on a rejection of the transport only.\<close>

lemma handleFormSubmission_with_unfold:
  "handleFormSubmission_with send frm0 a0 =
     (let formData = form_entries frm0;
          formType = getFormType frm0
      in case validateForm frm0 of
           (valid, frm1) \<Rightarrow>
             if \<not> valid then (hideFormLoading frm1, a0)
             else
               (let frm2 = showFormLoading frm1;
                    submissionData = prepareSubmissionData formData formType (now a0)
                in case send submissionData formType a0 of
                     (Inr res, a1) \<Rightarrow>
                       (let a2 = showFormSuccess formType a1;
                            a3 = trackEvent ''form_submission_success''
                                   [(''form_type'', Str formType)] a2
                        in (hideFormLoading (form_reset frm2), a3))
                   | (Inl reason, a1) \<Rightarrow>
                       (let a2 = showFormError reason a1;
                            a3 = trackEvent ''form_submission_error''
                                   [(''form_type'', Str formType), (''error'', Str reason)] a2
                        in (hideFormLoading frm2, a3))))"
  by (simp add: handleFormSubmission_with_def handleFormSubmission_env_def no_gtag_def
      trackEvent_try_def showMessage_try_def catch_block_def showFormSuccess_def
      showFormError_def showMessage_def Let_def split: prod.splits sum.splits)

lemma validateForm_fails:
  assumes "fld \<in> set (inputs frm)" and "\<not> fst (validateField fld errs)"
  shows "\<not> fst (validateForm frm)"
proof -
  have "\<not> fst (validateField fld [])"
    using assms(2) validateField_valid_indep [of fld errs "[]"] by simp
  then have "\<not> list_all (\<lambda>fld. fst (validateField fld [])) (inputs frm)"
    using assms(1) by (auto simp add: list_all_iff)
  then show ?thesis by (simp add: validateForm_conjunction)
qed

lemma handle_abort:
  "\<not> fst (validateForm frm) \<Longrightarrow>
     handleFormSubmission_with send frm a = (hideFormLoading (snd (validateForm frm)), a)"
  by (cases "validateForm frm") (simp add: handleFormSubmission_with_unfold Let_def)

lemma handle_success:
  "fst (validateForm frm) \<Longrightarrow>
     handleFormSubmission frm a =
       (hideFormLoading (form_reset (showFormLoading (snd (validateForm frm)))),
        trackEvent ''form_submission_success'' [(''form_type'', Str (getFormType frm))]
          (showFormSuccess (getFormType frm)
             (snd (submitForm (prepareSubmissionData (form_entries frm) (getFormType frm) (now a))
                     (getFormType frm) a))))"
  by (cases "validateForm frm")
    (simp add: handleFormSubmission_def handleFormSubmission_with_unfold submitForm_def Let_def)

lemma hideFormLoading_inputs: "inputs (hideFormLoading frm) = inputs frm"
  by (simp add: hideFormLoading_def split: option.splits)

lemma showFormLoading_inputs: "inputs (showFormLoading frm) = inputs frm"
  by (simp add: showFormLoading_def split: option.splits)

lemma validateForm_values:
  "map fvalue (inputs (snd (validateForm frm))) = map fvalue (inputs frm)"
  "map fdefault (inputs (snd (validateForm frm))) = map fdefault (inputs frm)"
  by (simp_all add: validateForm_checks_every_field validateField_values comp_def)

lemma showMessage_events:
  "eventHistory (showMessage msg type duration a) =
     eventHistory a @ [\<lparr>ev_name = ''message_display'',
                        ev_data = [(''type'', Str type), (''message'', Str (take 50 msg))],
                        ev_time = now a\<rparr>]"
  by (simp add: showMessage_def showMessage_dom_def trackEvent_def removeExistingMessages_def Let_def)

lemma showMessage_now: "now (showMessage msg type duration a) = now a"
  by (simp add: showMessage_def showMessage_dom_def trackEvent_def removeExistingMessages_def Let_def)

lemma handle_events:
  "eventHistory (snd (handleFormSubmission frm a)) =
     eventHistory a @
       (if fst (validateForm frm) then
          [\<lparr>ev_name = ''message_display'',
            ev_data = [(''type'', Str ''success''),
              (''message'', Str (take 50
                (if getFormType frm = ''early-access'' then
                   ''Thank you! You're now on our early access list. We'll notify you as soon as we launch.''
                 else if getFormType frm = ''contact'' then ''Thank you! We'll get back to you within 24 hours.''
                 else ''Form submitted successfully!'')))],
            ev_time = now a + FORM_TIMEOUT\<rparr>,
           \<lparr>ev_name = ''form_submission_success'',
            ev_data = [(''form_type'', Str (getFormType frm))],
            ev_time = now a + FORM_TIMEOUT\<rparr>]
        else [])"
proof (cases "fst (validateForm frm)")
  case True
  then show ?thesis
    by (simp add: handle_success trackEvent_def showFormSuccess_def success_message_def showMessage_events
        showMessage_now submitForm_def)
next
  case False
  then show ?thesis
    using handle_abort [OF False, of submitForm a] by (simp add: handleFormSubmission_def)
qed

lemma failed_submit_frame:
  assumes "\<not> fst (validateForm frm)"
  shows "snd (handleFormSubmission frm a) = a"
    and "map fvalue (inputs (fst (handleFormSubmission frm a))) = map fvalue (inputs frm)"
  using handle_abort [OF assms, of submitForm a]
  by (simp_all add: handleFormSubmission_def hideFormLoading_inputs validateForm_values)

text \<open>
  C4. When some field of the form does not validate, submitting never calls the transport:
  whatever the transport is, \<open>handleFormSubmission\<close> returns without consulting it, the
  application state is the one before the call, and the log of \<open>submitForm\<close> calls has not
  grown.
\<close>

theorem invalid_field_never_sends:
  assumes "fld \<in> set (inputs frm)" and "\<not> fst (validateField fld errs)"
  shows "handleFormSubmission_with send frm a = (hideFormLoading (snd (validateForm frm)), a) \<and>
         console_submissions (snd (handleFormSubmission frm a)) = console_submissions a"
  using handle_abort [OF validateForm_fails [OF assms]]
  by (simp add: handleFormSubmission_def)

theorem invalid_field_never_sends_witness:
  "email_field ''abc'' True \<in> set (inputs (signup_form ''abc'')) \<and>
   fst (validateField (email_field ''abc'' True) []) = False \<and>
   snd (handleFormSubmission (signup_form ''abc'') empty_app) = empty_app \<and>
   console_submissions (snd (handleFormSubmission (signup_form ''abc'') empty_app)) = []"
proof -
  have m: "email_field ''abc'' True \<in> set (inputs (signup_form ''abc''))"
    by (simp add: signup_form_def)
  have v: "\<not> fst (validateField (email_field ''abc'' True) [])"
    by (simp add: email_field_def field_eval)
  show ?thesis
    using m v invalid_field_never_sends [OF m v, of submitForm empty_app]
    by (simp add: handleFormSubmission_def empty_app_def)
qed

text \<open>
  C2. A submission that fails validation leaves the application state and the field values
  as they were (\<open>failed_submit_frame\<close>), but not the submit control: the early \<open>return\<close> is
  inside the \<open>try\<close>, so \<open>finally\<close> runs \<open>hideFormLoading\<close>, which writes the fixed label
  \<open>Send Message\<close> and enables the button. On the early-access form the label
  \<open>Join Waitlist\<close> is replaced.
\<close>

theorem failed_submit_relabels_button:
  "fst (validateForm (signup_form ''abc'')) = False \<and>
   submit_button (signup_form ''abc'') = Some \<lparr>btn_text = ''Join Waitlist'', btn_disabled = False\<rparr> \<and>
   submit_button (fst (handleFormSubmission (signup_form ''abc'') empty_app)) =
     Some \<lparr>btn_text = ''Send Message'', btn_disabled = False\<rparr>"
  by (simp add: handleFormSubmission_def handleFormSubmission_with_unfold hideFormLoading_def
      validateForm_def signup_form_def email_field_def field_eval)

text \<open>
  C5, as stated, fails: after a completed submission the fields hold their default values,
  which need not be empty. The hidden \<open>_csrf\<close> input that \<open>addCSRFProtection\<close> gives every
  form keeps its token.
\<close>

theorem reset_keeps_csrf_token:
  "list_all (\<lambda>fld. fst (validateField fld [])) (inputs (addCSRFProtection ''tok'' (signup_form ''a@b.co''))) \<and>
   map fvalue (inputs (fst (handleFormSubmission (addCSRFProtection ''tok'' (signup_form ''a@b.co'')) empty_app)))
     = ['''', ''tok''] \<and>
   \<not> list_all (\<lambda>fld. fvalue fld = [])
     (inputs (fst (handleFormSubmission (addCSRFProtection ''tok'' (signup_form ''a@b.co'')) empty_app)))"
  by (simp add: handleFormSubmission_def handleFormSubmission_with_unfold hideFormLoading_def
      showFormLoading_def form_reset_def submitForm_def
      validateForm_def addCSRFProtection_def signup_form_def email_field_def field_eval)

text \<open>
  C5, amended. When every field of the form validates, a completed submission resets each
  field to its default value, and appends to the event history the \<open>message_display\<close>
  event of the success message followed by exactly one \<open>form_submission_success\<close> event,
  whose \<open>form_type\<close> is the form's classified type: \<open>early-access\<close> for a form of class
  \<open>email-form\<close>, else \<open>contact\<close> inside \<open>#contact\<close>, else \<open>default\<close>.
\<close>

theorem successful_submission:
  assumes "list_all (\<lambda>fld. fst (validateField fld [])) (inputs frm)"
  shows "map fvalue (inputs (fst (handleFormSubmission frm a))) = map fdefault (inputs frm) \<and>
         (\<exists>shown. ev_name shown = ''message_display'' \<and>
            eventHistory (snd (handleFormSubmission frm a)) =
              eventHistory a @
                [shown,
                 \<lparr>ev_name = ''form_submission_success'',
                  ev_data = [(''form_type'', Str (getFormType frm))],
                  ev_time = now a + FORM_TIMEOUT\<rparr>]) \<and>
         getFormType frm =
           (if ''email-form'' \<in> set (form_classes frm) then ''early-access''
            else if in_contact frm then ''contact'' else ''default'')"
proof -
  have ok: "fst (validateForm frm)"
    using assms by (simp add: validateForm_conjunction)
  have vals: "map fvalue (inputs (fst (handleFormSubmission frm a))) = map fdefault (inputs frm)"
    using validateForm_values(2) [of frm]
    by (simp add: handle_success [OF ok] hideFormLoading_inputs form_reset_def
        showFormLoading_inputs comp_def)
  have evs: "eventHistory (snd (handleFormSubmission frm a)) =
      eventHistory a @
        [\<lparr>ev_name = ''message_display'',
          ev_data = [(''type'', Str ''success''),
            (''message'', Str (take 50
              (if getFormType frm = ''early-access'' then
                 ''Thank you! You're now on our early access list. We'll notify you as soon as we launch.''
               else if getFormType frm = ''contact'' then ''Thank you! We'll get back to you within 24 hours.''
               else ''Form submitted successfully!'')))],
          ev_time = now a + FORM_TIMEOUT\<rparr>,
         \<lparr>ev_name = ''form_submission_success'',
          ev_data = [(''form_type'', Str (getFormType frm))],
          ev_time = now a + FORM_TIMEOUT\<rparr>]"
    by (simp add: handle_success [OF ok] trackEvent_def showFormSuccess_def success_message_def showMessage_events
        showMessage_now submitForm_def)
  show ?thesis
    using vals evs by (simp add: getFormType_def)
qed

theorem successful_submission_witness:
  "list_all (\<lambda>fld. fst (validateField fld []))
     (inputs (addCSRFProtection ''tok'' (signup_form ''a@b.co''))) \<and>
   map fvalue (inputs (fst (handleFormSubmission (addCSRFProtection ''tok'' (signup_form ''a@b.co'')) empty_app)))
     = ['''', ''tok''] \<and>
   map ev_name (eventHistory (snd (handleFormSubmission (addCSRFProtection ''tok'' (signup_form ''a@b.co'')) empty_app)))
     = [''message_display'', ''form_submission_success''] \<and>
   getFormType (addCSRFProtection ''tok'' (signup_form ''a@b.co'')) = ''early-access''"
proof -
  have h: "list_all (\<lambda>fld. fst (validateField fld []))
     (inputs (addCSRFProtection ''tok'' (signup_form ''a@b.co'')))"
    by (simp add: addCSRFProtection_def signup_form_def email_field_def field_eval)
  show ?thesis
    using h successful_submission [OF h, of empty_app]
    by (auto simp add: addCSRFProtection_def signup_form_def email_field_def empty_app_def)
qed

lemma handle_env_abort:
  "\<not> fst (validateForm frm) \<Longrightarrow>
     handleFormSubmission_env gtag send frm a = (hideFormLoading (snd (validateForm frm)), a)"
  by (cases "validateForm frm") (simp add: handleFormSubmission_env_def Let_def)

lemma handle_env_quiet:
  assumes "gtag ''message_display''
             [(''type'', Str ''success''),
              (''message'', Str (take 50 (success_message (getFormType frm))))] = None"
    and "gtag ''form_submission_success'' [(''form_type'', Str (getFormType frm))] = None"
  shows "handleFormSubmission_env gtag submitForm frm a = handleFormSubmission frm a"
  using assms
  by (cases "validateForm frm")
    (simp add: handleFormSubmission_def handleFormSubmission_with_def handleFormSubmission_env_def
      no_gtag_def trackEvent_try_def showMessage_try_def submitForm_def Let_def)

text \<open>
  C9, as stated, fails: the \<open>catch\<close> block receives every exception of the \<open>try\<close> block, not
  only a rejection of the transport. With the transport as it is and a \<open>window.gtag\<close> that
  throws on the \<open>form_submission_success\<close> event, a valid submission shows the error message
  and records a \<open>form_submission_error\<close> event.
\<close>

theorem gtag_exception_reaches_catch:
  "fst (validateForm (signup_form ''a@b.co'')) \<and>
   map ev_name (eventHistory (snd (handleFormSubmission_env
       (gtag_throwing_on ''form_submission_success'') submitForm (signup_form ''a@b.co'') empty_app)))
     = [''message_display'', ''message_display'', ''form_submission_error''] \<and>
   map (\<lambda>e. (el_classes e, el_text e)) (elements (snd (handleFormSubmission_env
       (gtag_throwing_on ''form_submission_success'') submitForm (signup_form ''a@b.co'') empty_app)))
     = [([''message'', ''error-message''], ''gtag failed'')]"
  by (simp add: handleFormSubmission_env_def validateForm_def signup_form_def email_field_def
      field_eval gtag_throwing_on_def trackEvent_try_def showMessage_try_def catch_block_def
      showMessage_dom_def removeExistingMessages_def is_message_def class_tokens_def
      getMessageContainer_def trackEvent_def submitForm_def getFormType_def empty_app_def)

text \<open>
  C9, amended. The transport always fulfils its promise, with the same result,
  \<open>CONFIG.FORM_TIMEOUT\<close> (2000 ms) after the call, whatever the payload, so it never sends a
  submission into the \<open>catch\<close> block. When, besides, no statement of the \<open>try\<close> block throws
  (\<open>window.gtag\<close> does not throw on the two events of the success path), the submission
  runs as on a page without the hook: it appends no \<open>form_submission_error\<close> event and no
  \<open>message_display\<close> event of an error message. The \<open>catch\<close> block stays reachable through
  an exception thrown elsewhere in the \<open>try\<close> block.
\<close>

theorem transport_never_fails:
  assumes "gtag ''message_display''
             [(''type'', Str ''success''),
              (''message'', Str (take 50 (success_message (getFormType frm))))] = None"
    and "gtag ''form_submission_success'' [(''form_type'', Str (getFormType frm))] = None"
  shows "fst (submitForm data formType a) =
           Inr \<lparr>success = True, message = ''Form submitted successfully''\<rparr> \<and>
         now (snd (submitForm data formType a)) = now a + FORM_TIMEOUT \<and>
         FORM_TIMEOUT = 2000 \<and>
         handleFormSubmission_env gtag submitForm frm a = handleFormSubmission frm a \<and>
         filter (\<lambda>e. ev_name e = ''form_submission_error'' \<or>
                      (ev_name e = ''message_display'' \<and> (''type'', Str ''error'') \<in> set (ev_data e)))
           (drop (length (eventHistory a))
              (eventHistory (snd (handleFormSubmission_env gtag submitForm frm a)))) = []"
  by (simp add: handle_env_quiet [OF assms] handle_events submitForm_def FORM_TIMEOUT_def)

theorem transport_never_fails_witness:
  "gtag_throwing_on ''page_hidden'' ''message_display''
     [(''type'', Str ''success''),
      (''message'', Str (take 50 (success_message (getFormType (signup_form ''a@b.co'')))))] = None \<and>
   gtag_throwing_on ''page_hidden'' ''form_submission_success''
     [(''form_type'', Str (getFormType (signup_form ''a@b.co'')))] = None \<and>
   map ev_name (eventHistory (snd (handleFormSubmission_env (gtag_throwing_on ''page_hidden'')
       submitForm (signup_form ''a@b.co'') empty_app)))
     = [''message_display'', ''form_submission_success'']"
proof -
  have h1: "gtag_throwing_on ''page_hidden'' ''message_display''
     [(''type'', Str ''success''),
      (''message'', Str (take 50 (success_message (getFormType (signup_form ''a@b.co'')))))] = None"
    by (simp add: gtag_throwing_on_def)
  have h2: "gtag_throwing_on ''page_hidden'' ''form_submission_success''
     [(''form_type'', Str (getFormType (signup_form ''a@b.co'')))] = None"
    by (simp add: gtag_throwing_on_def)
  have v: "fst (validateForm (signup_form ''a@b.co''))"
    by (simp add: validateForm_def signup_form_def email_field_def field_eval)
  have "handleFormSubmission_env (gtag_throwing_on ''page_hidden'') submitForm
          (signup_form ''a@b.co'') empty_app = handleFormSubmission (signup_form ''a@b.co'') empty_app"
    using transport_never_fails [OF h1 h2] by simp
  then show ?thesis
    using h1 h2 v by (simp add: handle_events empty_app_def)
qed

lemma catch_branch_with_failing_transport:
  "map ev_name (eventHistory (snd (handleFormSubmission_with (\<lambda>data formType a. (Inl ''offline'', a))
      (signup_form ''a@b.co'') empty_app))) = [''message_display'', ''form_submission_error'']"
  by (simp add: handleFormSubmission_with_unfold validateForm_def signup_form_def email_field_def
      field_eval showFormError_def showMessage_events trackEvent_def empty_app_def)

section \<open>The message display\<close>

lemma split_message: "split_classes (''message '' @ r) [] = ''message'' # split_classes r []"
  by (simp add: is_space_def)

lemma message_token: "''message'' \<in> set (class_tokens (''message '' @ type @ ''-message''))"
  unfolding class_tokens_def using split_message [of "type @ ''-message''"] by simp

lemma showMessage_elements:
  "elements (showMessage msg type duration a) =
     filter (\<lambda>e. \<not> is_message e) (elements a) @
       [\<lparr>el_id = next_id a, el_classes = class_tokens (''message '' @ type @ ''-message''),
         el_text = sanitizeInput msg,
         el_parent = getMessageContainer type a\<rparr>]"
  by (simp add: showMessage_def showMessage_dom_def trackEvent_def removeExistingMessages_def Let_def
      getMessageContainer_def)

lemma showMessage_count: "message_count (showMessage msg type duration a) = 1"
  unfolding message_count_def showMessage_elements
  using message_token [of type] by (simp add: is_message_def)

lemma map_element_count:
  assumes "\<And>e. is_message (f e) = is_message e"
  shows "message_count (map_element i f a) = message_count a"
proof -
  have "filter is_message (map (\<lambda>e. if el_id e = i then f e else e) xs) =
        map (\<lambda>e. if el_id e = i then f e else e) (filter is_message xs)" for xs
    using assms by (induction xs) auto
  then show ?thesis by (simp add: message_count_def map_element_def)
qed

lemma run_timer_count: "message_count (run_timer t a) \<le> message_count a"
proof (cases t)
  case (AnimateIn i)
  then show ?thesis
    by (simp add: map_element_count is_message_def class_add_def)
next
  case (AutoHide i)
  have "message_count (hideMessage i a) = message_count a"
    using map_element_count [of "\<lambda>e. e\<lparr>el_classes := class_remove ''show'' (el_classes e)\<rparr>" i a]
    by (simp add: hideMessage_def Let_def message_count_def is_message_def class_remove_def)
  then show ?thesis using AutoHide by simp
next
  case (Detach i)
  have "length (filter is_message (filter (\<lambda>e. el_id e \<noteq> i) xs)) \<le> length (filter is_message xs)" for xs
    by (induction xs) auto
  then show ?thesis using Detach by (simp add: message_count_def)
qed

lemma fire_count: "message_count (fire k a) \<le> message_count a"
proof (cases "k < length (timers a)")
  case True
  have "message_count (run_timer (snd (timers a ! k)) (a\<lparr>timers := take k (timers a) @ drop (Suc k) (timers a)\<rparr>))
        \<le> message_count (a\<lparr>timers := take k (timers a) @ drop (Suc k) (timers a)\<rparr>)"
    by (rule run_timer_count)
  then show ?thesis using True by (simp add: fire_def message_count_def)
next
  case False
  then show ?thesis by (simp add: fire_def)
qed

lemma message_step_count: "message_count a \<le> 1 \<Longrightarrow> message_count (message_step act a) \<le> 1"
  using fire_count [of _ a] by (cases act) (auto simp add: showMessage_count intro: order_trans)

lemma message_run_count: "message_count a \<le> 1 \<Longrightarrow> message_count (message_run acts a) \<le> 1"
proof (induction acts arbitrary: a)
  case Nil
  then show ?case by (simp add: message_run_def)
next
  case (Cons act acts)
  then show ?case
    using message_step_count [of a act] by (simp add: message_run_def)
qed

text \<open>
  C10. \<open>showMessage\<close> first removes every element of class \<open>message\<close> and then appends the
  new one, so right after any call exactly one message element exists. The callbacks it
  schedules only change classes or remove an element. Hence a page that starts with at most
  one message element never shows more than one, whatever calls and callbacks follow.
\<close>

theorem one_message_at_a_time:
  "message_count (showMessage msg type duration a) = 1 \<and>
   elements (removeExistingMessages a) = filter (\<lambda>e. \<not> is_message e) (elements a) \<and>
   (message_count a \<le> 1 \<longrightarrow> message_count (message_run acts a) \<le> 1)"
  using message_run_count [of a acts]
  by (simp add: showMessage_count removeExistingMessages_def)

theorem one_message_at_a_time_witness:
  "message_count empty_app \<le> 1 \<and>
   message_count (message_run [Show ''saved'' ''success'' 5000, Fire 0,
                               Show ''failed'' ''error'' 5000, Fire 0, Fire 1] empty_app) = 1 \<and>
   message_count (message_run [Show ''saved'' ''success'' 5000, Fire 0, Fire 0, Fire 0] empty_app) = 0"
proof -
  have h: "message_count empty_app \<le> 1"
    by (simp add: message_count_def empty_app_def)
  have "message_count (message_run [Show ''saved'' ''success'' 5000, Fire 0,
                               Show ''failed'' ''error'' 5000, Fire 0, Fire 1] empty_app) \<le> 1"
    using one_message_at_a_time [of "''x''" "''y''" 0 empty_app] h by blast
  moreover have "message_count (message_run [Show ''saved'' ''success'' 5000, Fire 0,
                               Show ''failed'' ''error'' 5000, Fire 0, Fire 1] empty_app) \<ge> 1"
    by (simp add: message_run_def message_count_def empty_app_def showMessage_def showMessage_dom_def trackEvent_def
        removeExistingMessages_def getMessageContainer_def fire_def map_element_def hideMessage_def
        class_tokens_def is_space_def is_message_def class_add_def class_remove_def Let_def)
  moreover have "message_count (message_run [Show ''saved'' ''success'' 5000, Fire 0, Fire 0, Fire 0] empty_app) = 0"
    by (simp add: message_run_def message_count_def empty_app_def showMessage_def showMessage_dom_def trackEvent_def
        removeExistingMessages_def getMessageContainer_def fire_def map_element_def hideMessage_def
        class_tokens_def is_space_def is_message_def class_add_def class_remove_def Let_def)
  ultimately show ?thesis using h by simp
qed

section \<open>Scroll depth: properties\<close>

lemma scroll_listener_step:
  "scroll_listener p (m, a) =
     (if js_gt p m then
        (p, if at_quarter p then
              a\<lparr>eventHistory := eventHistory a @
                  [\<lparr>ev_name = ''scroll_depth'', ev_data = [(''depth'', depth_value p)], ev_time = now a\<rparr>]\<rparr>
            else a)
      else (m, a))"
  by (simp add: scroll_listener_def trackEvent_def)

lemma js_gt_trans: "js_gt a b \<Longrightarrow> js_gt b c \<Longrightarrow> js_gt a c"
  by (cases a; cases b; cases c) auto

lemma scroll_depths_append:
  "scroll_depths (a\<lparr>eventHistory := eventHistory a @
       [\<lparr>ev_name = ''scroll_depth'', ev_data = [(''depth'', v)], ev_time = t\<rparr>]\<rparr>) = scroll_depths a @ [v]"
  by (simp add: scroll_depths_def)

text \<open>
  What a run of scroll events adds to the recorded depths: values on a multiple of 25, each
  above the running maximum at the start and above every value recorded before it.
\<close>

lemma scroll_run_depths:
  "\<exists>ds. scroll_depths (snd (fold scroll_listener ps (m, a))) = scroll_depths a @ map depth_value ds \<and>
        list_all (\<lambda>d. js_gt d m \<and> at_quarter d) ds \<and> sorted_wrt (\<lambda>x y. js_gt y x) ds"
proof (induction ps arbitrary: m a)
  case Nil
  show ?case by (rule exI [of _ "[]"]) simp
next
  case (Cons p ps)
  show ?case
  proof (cases "js_gt p m")
    case False
    then show ?thesis using Cons.IH [of m a] by (simp add: scroll_listener_step)
  next
    case True
    show ?thesis
    proof (cases "at_quarter p")
      case False
      obtain ds where ds: "scroll_depths (snd (fold scroll_listener ps (p, a))) = scroll_depths a @ map depth_value ds"
        "list_all (\<lambda>d. js_gt d p \<and> at_quarter d) ds" "sorted_wrt (\<lambda>x y. js_gt y x) ds"
        using Cons.IH [of p a] by blast
      have "list_all (\<lambda>d. js_gt d m \<and> at_quarter d) ds"
        using ds(2) True by (auto simp add: list_all_iff intro: js_gt_trans)
      then show ?thesis
        using ds True False by (auto simp add: scroll_listener_step)
    next
      case q: True
      let ?a = "a\<lparr>eventHistory := eventHistory a @
                  [\<lparr>ev_name = ''scroll_depth'', ev_data = [(''depth'', depth_value p)], ev_time = now a\<rparr>]\<rparr>"
      obtain ds where ds: "scroll_depths (snd (fold scroll_listener ps (p, ?a))) = scroll_depths ?a @ map depth_value ds"
        "list_all (\<lambda>d. js_gt d p \<and> at_quarter d) ds" "sorted_wrt (\<lambda>x y. js_gt y x) ds"
        using Cons.IH [of p ?a] by blast
      have all: "list_all (\<lambda>d. js_gt d m \<and> at_quarter d) (p # ds)"
        using ds(2) True q by (auto simp add: list_all_iff intro: js_gt_trans)
      have srt: "sorted_wrt (\<lambda>x y. js_gt y x) (p # ds)"
        using ds(2,3) by (auto simp add: list_all_iff)
      have "scroll_depths (snd (fold scroll_listener (p # ps) (m, a))) =
            scroll_depths a @ map depth_value (p # ds)"
        using ds(1) True q by (simp add: scroll_listener_step scroll_depths_append)
      then show ?thesis using all srt by blast
    qed
  qed
qed

lemma continuous_scroll:
  "scroll_depths (snd (trackScrollDepth (map Finite [0..100]) empty_app)) = [Num 25, Num 50, Num 75, Num 100]"
  by (simp add: trackScrollDepth_def upto.simps scroll_listener_def trackEvent_def scroll_depths_def empty_app_def)

lemma scrollPercent_samples:
  "scrollPercent (viewport_at 0) = Finite 0"
  "scrollPercent (viewport_at 240) = Finite 24"
  "scrollPercent (viewport_at 260) = Finite 26"
  "scrollPercent (viewport_at 245) = Finite 25"
  "scrollPercent (viewport_at 1000) = Finite 100"
  by code_simp+

text \<open>
  The rounding of the doubles shows where the exact quotient is a half: 1005 of 1000 pixels
  is 100.49999999999999 as a double and rounds to 100, 23 of 40 pixels to 57.
\<close>

lemma scrollPercent_double_rounding:
  "fl (1 / 10) = 3602879701896397 / 2 ^ 55"
  "scrollPercent (scrolled 1005 1000) = Finite 100"
  "scrollPercent (scrolled 23 40) = Finite 57"
  "scrollPercent (scrolled 0 0) = NaN"
  "scrollPercent (scrolled 5 0) = Infinity"
  by code_simp+

text \<open>
  C1. A scroll that passes through every percentage from 0 to 100 records the depths 25, 50,
  75, 100 (\<open>continuous_scroll\<close>), and recorded depths only grow (\<open>scroll_run_depths\<close>). But
  a depth is recorded only when the rounded percentage of a scroll event is itself a
  multiple of 25. In a window 800 pixels high on a document 1800 pixels high, scroll events
  at 0, 240 and 260 pixels give 0, 24 and 26 percent: the running maximum passes 25 and
  nothing is recorded.
\<close>

theorem scroll_jump_skips_threshold:
  "map scrollPercent [viewport_at 0, viewport_at 240, viewport_at 260] = [Finite 0, Finite 24, Finite 26] \<and>
   trackScrollDepth (map scrollPercent [viewport_at 0, viewport_at 240, viewport_at 260]) empty_app
     = (Finite 26, empty_app)"
  by (simp add: scrollPercent_samples trackScrollDepth_def scroll_listener_def)

section \<open>Observers: properties\<close>

lemma class_add_same: "c \<in> set cs \<Longrightarrow> class_add c cs = cs"
  by (simp add: class_add_def)

lemma class_add_member: "c \<in> set (class_add c cs)"
  by (simp add: class_add_def)

lemma class_add_keeps: "c \<in> set cs \<Longrightarrow> c \<in> set (class_add d cs)"
  by (simp add: class_add_def)

lemma mark_visible_idem: "mark_visible (mark_visible sec) = mark_visible sec"
proof -
  let ?cs = "class_add ''loaded'' (class_add ''visible'' (sec_classes sec))"
  have v: "''visible'' \<in> set ?cs" by (simp add: class_add_keeps class_add_member)
  have l: "''loaded'' \<in> set ?cs" by (rule class_add_member)
  have "class_add ''loaded'' (class_add ''visible'' ?cs) = ?cs"
    using v l by (simp add: class_add_same)
  then show ?thesis by (simp add: mark_visible_def)
qed

lemma section_views_trackEvent:
  "section_views k (trackEvent ''section_view'' [(''section'', Str sid)] a) =
     section_views k a + (if sid = k then 1 else 0)"
  by (simp add: section_views_def trackEvent_def)

lemma section_callback_views:
  "section_views k (snd (section_callback es (secs, a))) =
     section_views k a +
     length (filter (\<lambda>e. isIntersecting e \<and> sectionId_of (mark_visible (secs (target e))) = k) es)"
proof (induction es arbitrary: secs a)
  case Nil
  then show ?case by (simp add: section_callback_def)
next
  case (Cons e es)
  show ?case
  proof (cases "isIntersecting e")
    case False
    then show ?thesis
      using Cons.IH [of secs a] by (simp add: section_callback_def section_entry_def)
  next
    case True
    let ?secs = "secs(target e := mark_visible (secs (target e)))"
    let ?a = "trackEvent ''section_view''
                [(''section'', Str (sectionId_of (mark_visible (secs (target e)))))] a"
    have step: "section_entry e (secs, a) = (?secs, ?a)"
      using True by (simp add: section_entry_def Let_def)
    have same: "mark_visible (?secs (target x)) = mark_visible (secs (target x))" for x
      by (simp add: mark_visible_idem)
    have "section_views k (snd (section_callback (e # es) (secs, a))) =
          section_views k (snd (section_callback es (?secs, ?a)))"
      using step by (simp add: section_callback_def)
    also have "\<dots> = section_views k ?a +
        length (filter (\<lambda>x. isIntersecting x \<and> sectionId_of (mark_visible (?secs (target x))) = k) es)"
      by (rule Cons.IH)
    also have "\<dots> = section_views k ?a +
        length (filter (\<lambda>x. isIntersecting x \<and> sectionId_of (mark_visible (secs (target x))) = k) es)"
      by (simp only: same)
    finally show ?thesis
      using True by (simp add: section_views_trackEvent)
  qed
qed

text \<open>
  C3, as stated, fails: the section observer keeps observing, and a section that comes into
  view, leaves and comes into view again has two \<open>section_view\<close> events.
\<close>

theorem second_crossing_records_again:
  "section_views ''services''
     (snd (section_callback [\<lparr>target = 0, isIntersecting = True\<rparr>]
        (section_callback [\<lparr>target = 0, isIntersecting = False\<rparr>]
           (section_callback [\<lparr>target = 0, isIntersecting = True\<rparr>]
              (services_section, empty_app))))) = 2"
  by (simp add: section_callback_def section_entry_def mark_visible_def sectionId_of_def
      class_add_def trackEvent_def section_views_def services_section_def empty_app_def Let_def)

text \<open>
  C3, amended. Every visibility crossing of an observed section records one \<open>section_view\<close>
  event keyed by the section's id, or by its class name when it has no id: the number of
  events with a given key grows by the number of intersecting entries for sections with
  that key. Only the display is idempotent: a crossing puts the classes \<open>visible\<close> and
  \<open>loaded\<close> on the section, and a later crossing leaves the sections as they are.
\<close>

theorem every_crossing_records_section_view:
  "section_views k (snd (section_callback es (secs, a))) =
     section_views k a +
     length (filter (\<lambda>e. isIntersecting e \<and> sectionId_of (mark_visible (secs (target e))) = k) es) \<and>
   (isIntersecting e \<longrightarrow>
      fst (section_entry e (secs, a)) (target e) = mark_visible (secs (target e)) \<and>
      ''visible'' \<in> set (sec_classes (mark_visible (secs (target e)))) \<and>
      fst (section_entry e (section_entry e (secs, a))) = fst (section_entry e (secs, a)))"
proof -
  have "fst (section_entry e (section_entry e (secs, a))) = fst (section_entry e (secs, a))"
    if "isIntersecting e"
    using that by (simp add: section_entry_def Let_def mark_visible_idem)
  moreover have "''visible'' \<in> set (sec_classes (mark_visible (secs (target e))))"
    by (simp add: mark_visible_def class_add_keeps class_add_member)
  ultimately show ?thesis
    by (simp add: section_callback_views section_entry_def Let_def)
qed

theorem every_crossing_records_section_view_witness:
  "isIntersecting \<lparr>target = 0, isIntersecting = True\<rparr> \<and>
   section_views ''services''
     (snd (section_callback [\<lparr>target = 0, isIntersecting = True\<rparr>, \<lparr>target = 0, isIntersecting = False\<rparr>,
                             \<lparr>target = 0, isIntersecting = True\<rparr>, \<lparr>target = 0, isIntersecting = True\<rparr>]
             (services_section, empty_app))) = 3 \<and>
   sec_classes (fst (section_entry \<lparr>target = 0, isIntersecting = True\<rparr> (services_section, empty_app)) 0)
     = [''services'', ''loading'', ''visible'', ''loaded'']"
  using every_crossing_records_section_view [of "''services''"
      "[\<lparr>target = 0, isIntersecting = True\<rparr>, \<lparr>target = 0, isIntersecting = False\<rparr>,
        \<lparr>target = 0, isIntersecting = True\<rparr>, \<lparr>target = 0, isIntersecting = True\<rparr>]"
      services_section empty_app "\<lparr>target = 0, isIntersecting = True\<rparr>"]
  by (simp add: mark_visible_def sectionId_of_def class_add_def services_section_def
      section_views_def empty_app_def)

lemma distinct_filter_target:
  "distinct (map target b) \<Longrightarrow>
     filter (\<lambda>e. target e = n) b = [] \<or> (\<exists>e. filter (\<lambda>e. target e = n) b = [e])"
proof (induction b)
  case Nil
  then show ?case by simp
next
  case (Cons x b)
  show ?case
  proof (cases "target x = n")
    case True
    then have "n \<notin> target ` set b" using Cons.prems by auto
    then have "filter (\<lambda>e. target e = n) b = []"
      by (auto simp add: filter_empty_conv)
    then show ?thesis using True by simp
  next
    case False
    then show ?thesis using Cons by simp
  qed
qed

lemma deliver_none: "deliver [] queued = []"
  by (simp add: deliver_def)

lemma deliver_one: "deliver [n] queued = filter (\<lambda>e. target e = n) queued"
  by (simp add: deliver_def)

lemma crossing_in_batch:
  "(filter (\<lambda>e. target e = n \<and> isIntersecting e) b \<noteq> []) =
   (filter isIntersecting (filter (\<lambda>e. target e = n) b) \<noteq> [])"
  by (simp add: conj_commute)

lemma service_notify_unobserved: "service_notify classes b ([], a) = ([], a)"
  by (simp add: service_notify_def deliver_none)

lemma service_notify_observed:
  assumes "distinct (map target b)"
  shows "service_notify classes b ([n], a) =
     (if filter (\<lambda>e. target e = n \<and> isIntersecting e) b \<noteq> [] then
        ([], trackEvent ''service_interest''
               [(''service'', Str (getServiceType classes)), (''action'', Str ''view'')] a)
      else ([n], a))"
proof -
  consider "filter (\<lambda>e. target e = n) b = []" | e where "filter (\<lambda>e. target e = n) b = [e]"
    using distinct_filter_target [OF assms, of n] by blast
  then show ?thesis
  proof cases
    case 1
    then show ?thesis
      by (simp add: service_notify_def deliver_one crossing_in_batch)
  next
    case 2
    then have "e \<in> set (filter (\<lambda>e. target e = n) b)" by simp
    then have "target e = n" by simp
    then show ?thesis
      using 2 by (simp add: service_notify_def deliver_one crossing_in_batch service_entry_def unobserve_def)
  qed
qed

lemma service_run_unobserved: "fold (service_notify classes) batches ([], a) = ([], a)"
  by (induction batches) (simp_all add: service_notify_unobserved)

lemma service_run:
  assumes "one_entry_per_target batches"
  shows "fold (service_notify classes) batches ([n], a) =
     (if crossings n batches > 0 then
        ([], trackEvent ''service_interest''
               [(''service'', Str (getServiceType classes)), (''action'', Str ''view'')] a)
      else ([n], a))"
  using assms
proof (induction batches)
  case Nil
  then show ?case by (simp add: crossings_def)
next
  case (Cons b batches)
  have d: "distinct (map target b)" and rest: "one_entry_per_target batches"
    using Cons.prems by (simp_all add: one_entry_per_target_def)
  show ?case
  proof (cases "filter (\<lambda>e. target e = n \<and> isIntersecting e) b = []")
    case True
    then show ?thesis
      using Cons.IH [OF rest] service_notify_observed [OF d, of classes n a]
      by (simp add: crossings_def)
  next
    case False
    then show ?thesis
      using service_notify_observed [OF d, of classes n a]
      by (simp add: crossings_def service_run_unobserved)
  qed
qed

lemma goal_notify_unobserved: "goal_notify sectionId b ([], a) = ([], a)"
  by (simp add: goal_notify_def deliver_none)

lemma goal_notify_observed:
  assumes "distinct (map target b)"
  shows "goal_notify sectionId b ([n], a) =
     (if filter (\<lambda>e. target e = n \<and> isIntersecting e) b \<noteq> [] then
        ([], trackEvent ''business_goal'' [(''goal'', Str (''view_'' @ sectionId))] a)
      else ([n], a))"
proof -
  consider "filter (\<lambda>e. target e = n) b = []" | e where "filter (\<lambda>e. target e = n) b = [e]"
    using distinct_filter_target [OF assms, of n] by blast
  then show ?thesis
  proof cases
    case 1
    then show ?thesis
      by (simp add: goal_notify_def deliver_one crossing_in_batch)
  next
    case 2
    then have "e \<in> set (filter (\<lambda>e. target e = n) b)" by simp
    then have "target e = n" by simp
    then show ?thesis
      using 2 by (simp add: goal_notify_def deliver_one crossing_in_batch goal_entry_def unobserve_def)
  qed
qed

lemma goal_run_unobserved: "fold (goal_notify sectionId) batches ([], a) = ([], a)"
  by (induction batches) (simp_all add: goal_notify_unobserved)

lemma goal_run:
  assumes "one_entry_per_target batches"
  shows "fold (goal_notify sectionId) batches ([n], a) =
     (if crossings n batches > 0 then
        ([], trackEvent ''business_goal'' [(''goal'', Str (''view_'' @ sectionId))] a)
      else ([n], a))"
  using assms
proof (induction batches)
  case Nil
  then show ?case by (simp add: crossings_def)
next
  case (Cons b batches)
  have d: "distinct (map target b)" and rest: "one_entry_per_target batches"
    using Cons.prems by (simp_all add: one_entry_per_target_def)
  show ?case
  proof (cases "filter (\<lambda>e. target e = n \<and> isIntersecting e) b = []")
    case True
    then show ?thesis
      using Cons.IH [OF rest] goal_notify_observed [OF d, of sectionId n a]
      by (simp add: crossings_def)
  next
    case False
    then show ?thesis
      using goal_notify_observed [OF d, of sectionId n a]
      by (simp add: crossings_def goal_run_unobserved)
  qed
qed


text \<open>
  When each callback receives at most one entry for each target, a one-shot observer records
  one event at the first batch in which its element comes into view and unobserves the
  element, after which the browser queues no entry for it: however many crossings follow,
  the event history holds exactly that one event, and none when the element never came
  into view.
\<close>

lemma one_shot_single_entries:
  assumes "one_entry_per_target batches"
  shows "trackServiceInterest classes node batches a =
           (if crossings node batches > 0 then
              ([], a\<lparr>eventHistory := eventHistory a @
                      [\<lparr>ev_name = ''service_interest'',
                        ev_data = [(''service'', Str (getServiceType classes)), (''action'', Str ''view'')],
                        ev_time = now a\<rparr>]\<rparr>)
            else ([node], a)) \<and>
         trackBusinessGoals sectionId node batches a =
           (if crossings node batches > 0 then
              ([], a\<lparr>eventHistory := eventHistory a @
                      [\<lparr>ev_name = ''business_goal'',
                        ev_data = [(''goal'', Str (''view_'' @ sectionId))],
                        ev_time = now a\<rparr>]\<rparr>)
            else ([node], a))"
  using service_run [OF assms, of classes node a] goal_run [OF assms, of sectionId node a]
  by (simp add: trackServiceInterest_def trackBusinessGoals_def trackEvent_def)

lemma one_shot_single_entries_example:
  "one_entry_per_target
     [[\<lparr>target = 3, isIntersecting = False\<rparr>], [\<lparr>target = 3, isIntersecting = True\<rparr>],
      [\<lparr>target = 3, isIntersecting = False\<rparr>], [\<lparr>target = 3, isIntersecting = True\<rparr>]] \<and>
   crossings 3
     [[\<lparr>target = 3, isIntersecting = False\<rparr>], [\<lparr>target = 3, isIntersecting = True\<rparr>],
      [\<lparr>target = 3, isIntersecting = False\<rparr>], [\<lparr>target = 3, isIntersecting = True\<rparr>]] = 2 \<and>
   map ev_data (eventHistory (snd (trackServiceInterest [''service-card'', ''healthcare''] 3
     [[\<lparr>target = 3, isIntersecting = False\<rparr>], [\<lparr>target = 3, isIntersecting = True\<rparr>],
      [\<lparr>target = 3, isIntersecting = False\<rparr>], [\<lparr>target = 3, isIntersecting = True\<rparr>]] empty_app)))
     = [[(''service'', Str ''healthcare''), (''action'', Str ''view'')]] \<and>
   map ev_data (eventHistory (snd (trackBusinessGoals ''about'' 3
     [[\<lparr>target = 3, isIntersecting = False\<rparr>], [\<lparr>target = 3, isIntersecting = True\<rparr>],
      [\<lparr>target = 3, isIntersecting = False\<rparr>], [\<lparr>target = 3, isIntersecting = True\<rparr>]] empty_app)))
     = [[(''goal'', Str ''view_about'')]]"
proof -
  let ?bs = "[[\<lparr>target = 3, isIntersecting = False\<rparr>], [\<lparr>target = 3, isIntersecting = True\<rparr>],
      [\<lparr>target = 3, isIntersecting = False\<rparr>], [\<lparr>target = 3, isIntersecting = True\<rparr>]]"
  have h: "one_entry_per_target ?bs"
    by (simp add: one_entry_per_target_def)
  have c: "crossings 3 ?bs = 2"
    by (simp add: crossings_def)
  show ?thesis
    using h c one_shot_single_entries [OF h, of "[''service-card'', ''healthcare'']" 3 empty_app "''about''"]
    by (simp add: getServiceType_def empty_app_def)
qed

text \<open>
  C8. \<open>unobserve\<close> stops the entries of later batches, not those already handed to the
  callback: \<open>entries.forEach\<close> runs through the whole batch. A batch that holds the entries of
  an element coming into view, leaving and coming into view again makes the observer of a
  service card record two \<open>service_interest\<close> events, and the observer of a business-goal
  section two \<open>business_goal\<close> events, for the one element.
\<close>

theorem repeated_entries_record_twice:
  "crossings 3 [[\<lparr>target = 3, isIntersecting = True\<rparr>, \<lparr>target = 3, isIntersecting = False\<rparr>,
                 \<lparr>target = 3, isIntersecting = True\<rparr>]] = 2 \<and>
   map ev_name (eventHistory (snd (trackServiceInterest [''service-card'', ''healthcare''] 3
      [[\<lparr>target = 3, isIntersecting = True\<rparr>, \<lparr>target = 3, isIntersecting = False\<rparr>,
        \<lparr>target = 3, isIntersecting = True\<rparr>]] empty_app)))
     = [''service_interest'', ''service_interest''] \<and>
   map ev_name (eventHistory (snd (trackBusinessGoals ''about'' 3
      [[\<lparr>target = 3, isIntersecting = True\<rparr>, \<lparr>target = 3, isIntersecting = False\<rparr>,
        \<lparr>target = 3, isIntersecting = True\<rparr>]] empty_app)))
     = [''business_goal'', ''business_goal'']"
  by (simp add: crossings_def trackServiceInterest_def service_notify_def service_entry_def
      trackBusinessGoals_def goal_notify_def goal_entry_def deliver_def
      unobserve_def trackEvent_def empty_app_def)

end
